theory Spec2Isabelle
  imports Complex_Main
begin

section \<open>Numbers\<close>

text \<open>
  The wrapper \<^verbatim>\<open>hyperion_voropp_wrap\<close> of \<^verbatim>\<open>src/hyperion/grid/voropp_wrap.cc\<close> computes with
  C \<^verbatim>\<open>int\<close> and \<^verbatim>\<open>double\<close>. Finite doubles are modelled as reals: rounding, overflow to
  infinity and the sign of zero are not modelled. The special values that the code itself
  creates are kept: the quotient by zero in the grid sizing (\<open>Infinite\<close> of either sign, or
  \<open>NaN\<close> for 0/0) and the \<^verbatim>\<open>quiet_NaN\<close> padding of the vertex buffer. Integers are unbounded
  \<open>int\<close>; the one place where the range of \<^verbatim>\<open>int\<close> is written out is the conversion
  \<^verbatim>\<open>(int)(...) + 1\<close> of the grid sizing, whose behaviour is undefined outside that range.
\<close>

datatype double = Finite real | Infinite | NaN

definition ddiv :: "real \<Rightarrow> real \<Rightarrow> double" where
  "ddiv x y = (if y \<noteq> 0 then Finite (x / y) else if x = 0 then NaN else Infinite)"

definition dmul :: "double \<Rightarrow> real \<Rightarrow> double" where
  "dmul d y = (case d of
       Finite x \<Rightarrow> Finite (x * y)
     | Infinite \<Rightarrow> (if y = 0 then NaN else Infinite)
     | NaN \<Rightarrow> NaN)"

definition INT_MAX :: int where
  "INT_MAX = 2147483647"

definition INT_MIN :: int where
  "INT_MIN = - 2147483648"

definition truncated :: "real \<Rightarrow> int" where
  \<comment> \<open>conversion of a finite double to an integer discards the fractional part\<close>
  "truncated x = (if 0 \<le> x then \<lfloor>x\<rfloor> else \<lceil>x\<rceil>)"

definition to_int :: "double \<Rightarrow> int option" where
  \<comment> \<open>the cast \<^verbatim>\<open>(int)d\<close>; \<open>None\<close> is undefined behaviour: the truncated value is not an \<^verbatim>\<open>int\<close>\<close>
  "to_int d = (case d of
       Finite x \<Rightarrow> (if INT_MIN \<le> truncated x \<and> truncated x \<le> INT_MAX then Some (truncated x) else None)
     | Infinite \<Rightarrow> None
     | NaN \<Rightarrow> None)"

definition cbrt :: "real \<Rightarrow> real" where
  "cbrt x = root 3 x"

section \<open>Arguments, exceptions and static storage\<close>

record call_args =
  start :: int
  end' :: int
  xmin :: real
  xmax :: real
  ymin :: real
  ymax :: real
  zmin :: real
  zmax :: real
  points :: "nat \<Rightarrow> real"
  nsites :: int
  with_vertices :: int
  wall_str :: string
  wall_args_arr :: "nat \<Rightarrow> real"
  n_wall_args :: int
  verbose :: int

text \<open>
  The arrays \<^verbatim>\<open>points\<close> and \<^verbatim>\<open>wall_args_arr\<close> are pointers in the source; they are
  functions from the index here, and the code reads them only below \<open>3 * nsites\<close> and
  \<open>n_wall_args\<close>. The diagnostic text printed when \<open>verbose\<close> is set goes to standard output
  and is not part of the model.
\<close>

datatype exn = invalid_argument string | length_error string

fun what :: "exn \<Rightarrow> string" where
  "what (invalid_argument m) = m"
| "what (length_error m) = m"

datatype 'a flow = Normal 'a | Throws exn | Undefined

datatype wall =
    wall_sphere real real real real
  | wall_cylinder real real real real real real real

record statics =
  error_message :: string
  wall_ptr :: "wall option"

section \<open>The cell geometry engine\<close>

type_synonym particle = "int \<times> real \<times> real \<times> real"

record container =
  box :: "real \<times> real \<times> real \<times> real \<times> real \<times> real"
  blocks :: "int \<times> int \<times> int"
  periodic :: "bool \<times> bool \<times> bool"
  init_mem :: int
  particles :: "particle list"
  walls :: "wall list"

record cell =
  cell_neighbors :: "int list"
  cell_volume :: real
  cell_vertices :: "real list"

type_synonym engine = "container \<Rightarrow> particle \<Rightarrow> cell"

text \<open>
  The library behind \<^verbatim>\<open>voro++.hh\<close> is not among the sources. Its container, its particle
  order and its loop are modelled from the specification; the cell computation itself
  (\<^verbatim>\<open>compute_cell\<close> followed by \<^verbatim>\<open>neighbors\<close>, \<^verbatim>\<open>volume\<close> and \<^verbatim>\<open>vertices\<close>) is a parameter
  of type \<^typ>\<open>engine\<close>: a function of the container and of the particle the loop is at.
\<close>

definition new_container ::
  "real \<Rightarrow> real \<Rightarrow> real \<Rightarrow> real \<Rightarrow> real \<Rightarrow> real \<Rightarrow> int \<Rightarrow> int \<Rightarrow> int \<Rightarrow> bool \<Rightarrow> bool \<Rightarrow> bool \<Rightarrow> int \<Rightarrow> container" where
  \<comment> \<open>Modelled from the spec: the container constructor of the engine is missing;
      "construct a spatial container over a domain with a given grid resolution".\<close>
  "new_container x0 x1 y0 y1 z0 z1 gx gy gz px py pz mem =
     \<lparr>box = (x0, x1, y0, y1, z0, z1), blocks = (gx, gy, gz), periodic = (px, py, pz),
      init_mem = mem, particles = [], walls = []\<rparr>"

definition put :: "container \<Rightarrow> particle \<Rightarrow> container" where
  \<comment> \<open>Modelled from the spec: \<^verbatim>\<open>container::put\<close> is missing; "insert a point into the
      container", untagged: "it contributes to geometry but is never iterated for output".\<close>
  "put con p = con\<lparr>particles := particles con @ [p]\<rparr>"

definition put_order :: "container \<Rightarrow> particle list \<Rightarrow> particle \<Rightarrow> container \<times> particle list" where
  \<comment> \<open>Modelled from the spec: \<^verbatim>\<open>container::put\<close> with a \<^verbatim>\<open>particle_order\<close> is missing;
      "insert it tagged for retrieval (the tag preserves the ability to recover its
      original global index and iterate only over tagged points later)".\<close>
  "put_order con po p = (put con p, po @ [p])"

definition add_wall :: "container \<Rightarrow> wall \<Rightarrow> container" where
  \<comment> \<open>Modelled from the spec: \<^verbatim>\<open>container::add_wall\<close> is missing;
      "add a bounding wall surface to the container".\<close>
  "add_wall con w = con\<lparr>walls := walls con @ [w]\<rparr>"

definition is_boundary_face_id :: "int \<Rightarrow> bool" where
  \<comment> \<open>Modelled from the spec: the neighbour ids of the engine are missing; "negative
      sentinel ids denote faces bounded by a wall or domain boundary rather than another
      particle". The specification names no value; the values here are those of the
      library the wrapper is written against: -1 to -6 for the six faces of the box, and
      -99 for a wall built without an id of its own, as \<open>add_walls\<close> builds it.\<close>
  "is_boundary_face_id n = ((- 6 \<le> n \<and> n \<le> - 1) \<or> n = - 99)"

section \<open>Grid sizing\<close>

definition particle_block :: real where
  "particle_block = 5"

definition grid_axis :: "real \<Rightarrow> real \<Rightarrow> real \<Rightarrow> int option" where
  \<comment> \<open>\<^verbatim>\<open>(int)(extent / vol_edge * block_edge) + 1\<close>; \<open>None\<close> is undefined behaviour\<close>
  "grid_axis extent vol_edge block_edge =
     (case to_int (dmul (ddiv extent vol_edge) block_edge) of
        None \<Rightarrow> None
      | Some n \<Rightarrow> (if n + 1 \<le> INT_MAX then Some (n + 1) else None))"

definition grid_size :: "call_args \<Rightarrow> (int \<times> int \<times> int) option" where
  "grid_size a =
     (let nblocks = real_of_int (nsites a) / particle_block;
          block_edge = cbrt nblocks;
          vol_edge = cbrt ((xmax a - xmin a) * (ymax a - ymin a) * (zmax a - zmin a))
      in case grid_axis (xmax a - xmin a) vol_edge block_edge of
           None \<Rightarrow> None
         | Some gx \<Rightarrow>
            (case grid_axis (ymax a - ymin a) vol_edge block_edge of
               None \<Rightarrow> None
             | Some gy \<Rightarrow>
                (case grid_axis (zmax a - zmin a) vol_edge block_edge of
                   None \<Rightarrow> None
                 | Some gz \<Rightarrow> Some (gx, gy, gz))))"


section \<open>Walls\<close>

definition add_sphere ::
  "container \<Rightarrow> wall option \<Rightarrow> string \<Rightarrow> (nat \<Rightarrow> real) \<Rightarrow> int \<Rightarrow> container flow \<times> wall option" where
  "add_sphere con wp name args n =
     (if name = ''sphere'' then
        (if n \<noteq> 4 then
           (Throws (invalid_argument
              ''invalid number of arguments for a 'sphere' wall, exactly 4 are needed''), wp)
         else if args 3 \<le> 0 then
           (Throws (invalid_argument
              ''the radius of a 'sphere' wall must be strictly positive''), wp)
         else
           (let w = wall_sphere (args 0) (args 1) (args 2) (args 3)
            in (Normal (add_wall con w), Some w)))
      else (Normal con, wp))"

definition add_cylinder ::
  "container \<Rightarrow> wall option \<Rightarrow> string \<Rightarrow> (nat \<Rightarrow> real) \<Rightarrow> int \<Rightarrow> container flow \<times> wall option" where
  "add_cylinder con wp name args n =
     (if name = ''cylinder'' then
        (if n \<noteq> 7 then
           (Throws (invalid_argument
              ''invalid number of arguments for a 'cylinder' wall, exactly 7 are needed''), wp)
         else if args 6 \<le> 0 then
           (Throws (invalid_argument
              ''the radius of a 'cylinder' wall must be strictly positive''), wp)
         else
           (let w = wall_cylinder (args 0) (args 1) (args 2) (args 3) (args 4) (args 5) (args 6)
            in (Normal (add_wall con w), Some w)))
      else (Normal con, wp))"

definition add_walls ::
  "container \<Rightarrow> wall option \<Rightarrow> string \<Rightarrow> (nat \<Rightarrow> real) \<Rightarrow> int \<Rightarrow> container flow \<times> wall option" where
  \<comment> \<open>the two tests of the wall name follow each other; the static \<^verbatim>\<open>wall_ptr\<close> is the
      second component\<close>
  "add_walls con wp name args n =
     (case add_sphere con wp name args n of
        (Normal con1, wp1) \<Rightarrow> add_cylinder con1 wp1 name args n
      | (Throws e, wp1) \<Rightarrow> (Throws e, wp1)
      | (Undefined, wp1) \<Rightarrow> (Undefined, wp1))"

section \<open>Population of the container\<close>

definition site :: "call_args \<Rightarrow> nat \<Rightarrow> particle" where
  "site a i = (int i, points a (i * 3), points a (i * 3 + 1), points a (i * 3 + 2))"

definition populate_step :: "call_args \<Rightarrow> nat \<Rightarrow> container \<times> particle list \<Rightarrow> container \<times> particle list" where
  "populate_step a i = (\<lambda>(con, po).
     if int i \<ge> start a \<and> int i < end' a then put_order con po (site a i)
     else (put con (site a i), po))"

definition populate :: "call_args \<Rightarrow> container \<Rightarrow> container \<times> particle list" where
  \<comment> \<open>\<^verbatim>\<open>for (int i = 0; i < nsites; ++i)\<close>, starting from an empty particle order\<close>
  "populate a con = fold (populate_step a) [0..<nat (nsites a)] (con, [])"

section \<open>The loop over the selected particles\<close>

record buffers =
  n_list :: "int list list"
  vertices_list :: "real list list"
  vols :: "real option list"
  bb_m :: "real option list"
  bb_M :: "real option list"

text \<open>
  The three arrays obtained from \<^verbatim>\<open>malloc\<close> hold indeterminate values until they are
  written: an element is \<open>None\<close> until then. Allocation by \<^verbatim>\<open>malloc\<close> is taken to succeed.
\<close>

definition init_buffers :: "nat \<Rightarrow> int \<Rightarrow> buffers" where
  "init_buffers ncells wv =
     \<lparr>n_list = replicate ncells [],
      vertices_list = (if wv \<noteq> 0 then replicate ncells [] else []),
      vols = replicate ncells None,
      bb_m = replicate (ncells * 3) None,
      bb_M = replicate (ncells * 3) None\<rparr>"

definition bb_step :: "real list \<Rightarrow> nat \<Rightarrow> nat \<Rightarrow> real list \<times> real list \<Rightarrow> real list \<times> real list" where
  \<comment> \<open>the body of the loop over \<open>j\<close>\<close>
  "bb_step vs i j = (\<lambda>(tmp_min, tmp_max).
     (if vs ! (i * 3 + j) < tmp_min ! j then tmp_min[j := vs ! (i * 3 + j)] else tmp_min,
      if vs ! (i * 3 + j) > tmp_max ! j then tmp_max[j := vs ! (i * 3 + j)] else tmp_max))"

definition bb_loops :: "real list \<Rightarrow> real list \<times> real list" where
  \<comment> \<open>the two copies of the first triplet, then the loops over \<open>i\<close> and \<open>j\<close>\<close>
  "bb_loops vs =
     fold (\<lambda>i. fold (bb_step vs i) [0..<3]) [1..<length vs div 3] (take 3 vs, take 3 vs)"

definition bounding_box :: "real list \<Rightarrow> (real list \<times> real list) option" where
  \<comment> \<open>\<open>None\<close> is undefined behaviour: the two \<^verbatim>\<open>std::copy\<close> read three elements of a
      shorter vector\<close>
  "bounding_box vs = (if length vs < 3 then None else Some (bb_loops vs))"

definition copy3 :: "real list \<Rightarrow> nat \<Rightarrow> real option list \<Rightarrow> real option list" where
  \<comment> \<open>\<^verbatim>\<open>std::copy(tmp, tmp + 3, buf + off)\<close>\<close>
  "copy3 tmp off buf = fold (\<lambda>k b. b[off + k := Some (tmp ! k)]) [0..<3] buf"

definition cell_step :: "engine \<Rightarrow> container \<Rightarrow> call_args \<Rightarrow> particle \<Rightarrow> buffers \<Rightarrow> buffers option" where
  \<comment> \<open>one turn of the \<^verbatim>\<open>do ... while\<close> loop; \<open>None\<close> is undefined behaviour\<close>
  "cell_step compute_cell con a p bufs =
     (let idx = fst p - start a in
      if idx < 0 \<or> int (length (n_list bufs)) \<le> idx then None
      else
        let k = nat idx;
            c = compute_cell con p;
            bufs1 = bufs\<lparr>n_list := (n_list bufs)[k := cell_neighbors c]\<rparr>;
            bufs2 = bufs1\<lparr>vols := (vols bufs1)[k := Some (cell_volume c)]\<rparr>;
            tmp_vertices = cell_vertices c;
            bufs3 = (if with_vertices a \<noteq> 0
                     then bufs2\<lparr>vertices_list := (vertices_list bufs2)[k := tmp_vertices]\<rparr>
                     else bufs2)
        in case bounding_box tmp_vertices of
             None \<Rightarrow> None
           | Some (tmp_min, tmp_max) \<Rightarrow>
               Some (bufs3\<lparr>bb_m := copy3 tmp_min (k * 3) (bb_m bufs3),
                           bb_M := copy3 tmp_max (k * 3) (bb_M bufs3)\<rparr>))"

fun cell_loop :: "engine \<Rightarrow> container \<Rightarrow> call_args \<Rightarrow> particle list \<Rightarrow> buffers \<Rightarrow> buffers option" where
  \<comment> \<open>\<^verbatim>\<open>if (vl.start()) do { ... } while (vl.inc())\<close>. Modelled from the spec: the loop
      class of the engine is missing; it is at each tagged particle once, in the order
      of the insertions ("iterate only over tagged points later").\<close>
  "cell_loop compute_cell con a [] bufs = Some bufs"
| "cell_loop compute_cell con a (p # po) bufs =
     (case cell_step compute_cell con a p bufs of
        None \<Rightarrow> None
      | Some bufs' \<Rightarrow> cell_loop compute_cell con a po bufs')"

section \<open>Packing\<close>

fun max_element_size :: "'a list list \<Rightarrow> nat option" where
  \<comment> \<open>\<^verbatim>\<open>std::max_element(first, last, size_cmp)->size()\<close>; on an empty range the iterator
      \<^verbatim>\<open>last\<close> is dereferenced: \<open>None\<close> is undefined behaviour\<close>
  "max_element_size [] = None"
| "max_element_size (r # rs) = Some (fold (\<lambda>x m. if m < length x then length x else m) rs (length r))"

fun pack :: "'a \<Rightarrow> nat \<Rightarrow> 'a list list \<Rightarrow> 'a list" where
  \<comment> \<open>row \<open>idx\<close> is written at \<open>width * idx\<close>: the elements of the row by \<^verbatim>\<open>std::copy\<close>,
      then the padding up to \<open>width\<close> by \<^verbatim>\<open>std::fill\<close>\<close>
  "pack padding width [] = []"
| "pack padding width (r # rs) =
     (r @ replicate (width - length r) padding) @ pack padding width rs"

record out_params =
  neighbours :: "int list option"
  max_nn :: "int option"
  volumes :: "real option list option"
  bb_min :: "real option list option"
  bb_max :: "real option list option"
  vertices :: "double list option"
  max_nv :: "int option"

text \<open>
  An output parameter is \<open>None\<close> as long as the call has not assigned it.
\<close>

definition unassigned :: out_params where
  "unassigned = \<lparr>neighbours = None, max_nn = None, volumes = None, bb_min = None,
                 bb_max = None, vertices = None, max_nv = None\<rparr>"

definition pack_outputs :: "call_args \<Rightarrow> buffers \<Rightarrow> out_params option" where
  \<comment> \<open>lines 224 to 263, the assignments in the order of the source; \<open>None\<close> is undefined
      behaviour\<close>
  "pack_outputs a bufs =
     (case max_element_size (n_list bufs) of
        None \<Rightarrow> None
      | Some mnn \<Rightarrow>
         (let out1 = unassigned\<lparr>max_nn := Some (int mnn)\<rparr>;
              neighs = pack (- 10) mnn (n_list bufs)
          in if with_vertices a \<noteq> 0 then
               (case max_element_size (vertices_list bufs) of
                  None \<Rightarrow> None
                | Some mnv \<Rightarrow>
                   (let out2 = out1\<lparr>max_nv := Some (int mnv)\<rparr>;
                        verts = pack NaN mnv (map (map Finite) (vertices_list bufs));
                        out3 = out2\<lparr>vertices := Some verts\<rparr>
                    in Some (out3\<lparr>volumes := Some (vols bufs), bb_min := Some (bb_m bufs),
                                   bb_max := Some (bb_M bufs), neighbours := Some neighs\<rparr>)))
             else
               (let out2 = out1\<lparr>max_nv := Some 0\<rparr>
                in Some (out2\<lparr>volumes := Some (vols bufs), bb_min := Some (bb_m bufs),
                               bb_max := Some (bb_M bufs), neighbours := Some neighs\<rparr>))))"

section \<open>The call\<close>

definition built_container :: "call_args \<Rightarrow> int \<times> int \<times> int \<Rightarrow> container \<times> particle list" where
  \<comment> \<open>lines 165 to 176\<close>
  "built_container a g =
     (case g of (gx, gy, gz) \<Rightarrow>
        populate a (new_container (xmin a) (xmax a) (ymin a) (ymax a) (zmin a) (zmax a)
                      gx gy gz False False False 8))"

definition wrap_body :: "engine \<Rightarrow> wall option \<Rightarrow> call_args \<Rightarrow> unit flow \<times> out_params \<times> wall option" where
  \<comment> \<open>the \<^verbatim>\<open>try\<close> block. A negative \<open>ncells\<close> becomes an unsigned size above
      \<^verbatim>\<open>max_size()\<close> and the constructor of the list of neighbour lists throws (the text is
      the one of libstdc++); the exceptions thrown are all of class \<^verbatim>\<open>std::exception\<close>\<close>
  "wrap_body compute_cell wp a =
     (case grid_size a of
        None \<Rightarrow> (Undefined, unassigned, wp)
      | Some g \<Rightarrow>
         (let ncells = end' a - start a in
          if ncells < 0 then
            (Throws (length_error ''cannot create std::vector larger than max_size()''),
             unassigned, wp)
          else
            (case built_container a g of (con, po) \<Rightarrow>
               (case add_walls con wp (wall_str a) (wall_args_arr a) (n_wall_args a) of
                  (Undefined, wp1) \<Rightarrow> (Undefined, unassigned, wp1)
                | (Throws e, wp1) \<Rightarrow> (Throws e, unassigned, wp1)
                | (Normal con1, wp1) \<Rightarrow>
                   (case cell_loop compute_cell con1 a po
                           (init_buffers (nat ncells) (with_vertices a)) of
                      None \<Rightarrow> (Undefined, unassigned, wp1)
                    | Some bufs \<Rightarrow>
                       (case pack_outputs a bufs of
                          None \<Rightarrow> (Undefined, unassigned, wp1)
                        | Some out \<Rightarrow> (Normal (), out, wp1)))))))"

definition message_prefix :: string where
  \<open>message_prefix =
     ''A C++ exception was raised while calling the voro++ wrapper. The full error message is: "''\<close>

definition message_suffix :: string where
  \<open>message_suffix = ''".''\<close>

datatype outcome =
    Returns "string option" out_params statics
  | Undefined_behaviour

definition hyperion_voropp_wrap :: "engine \<Rightarrow> statics \<Rightarrow> call_args \<Rightarrow> outcome" where
  \<comment> \<open>\<open>Returns None\<close> is the return of \<^verbatim>\<open>NULL\<close>; \<open>Returns (Some m)\<close> is the return of the
      text of the static \<^verbatim>\<open>error_message\<close>\<close>
  "hyperion_voropp_wrap compute_cell s a =
     (case wrap_body compute_cell (wall_ptr s) a of
        (Normal u, out, wp) \<Rightarrow> Returns None out (s\<lparr>wall_ptr := wp\<rparr>)
      | (Throws e, out, wp) \<Rightarrow>
          (let m = message_prefix @ what e @ message_suffix
           in Returns (Some m) out \<lparr>error_message = m, wall_ptr = wp\<rparr>)
      | (Undefined, out, wp) \<Rightarrow> Undefined_behaviour)"

section \<open>The results the specification describes\<close>

definition selected :: "call_args \<Rightarrow> particle list" where
  \<comment> \<open>the particles of the selection range \<open>[start, end)\<close>, by increasing index\<close>
  "selected a = map (site a) [nat (start a)..<nat (end' a)]"

definition cell_results :: "engine \<Rightarrow> container \<Rightarrow> int \<Rightarrow> particle list \<Rightarrow> buffers" where
  \<comment> \<open>one cell result for each particle of the list, the result of the particle at
      position \<open>k\<close> at index \<open>k\<close> (section 4.4: "one CellResult per tagged particle,
      indexed by local index")\<close>
  "cell_results compute_cell con wv po =
     \<lparr>n_list = map (\<lambda>p. cell_neighbors (compute_cell con p)) po,
      vertices_list = (if wv \<noteq> 0 then map (\<lambda>p. cell_vertices (compute_cell con p)) po else []),
      vols = map (\<lambda>p. Some (cell_volume (compute_cell con p))) po,
      bb_m = concat (map (\<lambda>p. map Some (fst (bb_loops (cell_vertices (compute_cell con p))))) po),
      bb_M = concat (map (\<lambda>p. map Some (snd (bb_loops (cell_vertices (compute_cell con p))))) po)\<rparr>"

definition triplets :: "real list \<Rightarrow> real list list" where
  \<comment> \<open>the vertex triplets of a flat list of coordinates\<close>
  "triplets vs = map (\<lambda>i. take 3 (drop (i * 3) vs)) [0..<length vs div 3]"

definition bb_spec :: "real list \<Rightarrow> (real list \<times> real list) option" where
  \<comment> \<open>section 4.4, step 6: "initialize min=max=first vertex triplet, then fold over
      remaining vertex triplets taking componentwise min/max"; there is no box without a
      first triplet\<close>
  "bb_spec vs =
     (case triplets vs of
        [] \<Rightarrow> None
      | t # ts \<Rightarrow> Some (fold (\<lambda>t (lo, hi). (map2 min lo t, map2 max hi t)) ts (t, t)))"

definition cell_container :: "call_args \<Rightarrow> container option" where
  \<comment> \<open>the container the cells of a call are computed on: the grid of \<open>grid_size\<close>, every
      particle inserted, the wall attached; \<open>None\<close> when the call does not get that far\<close>
  "cell_container a =
     (case grid_size a of
        None \<Rightarrow> None
      | Some g \<Rightarrow>
         (case fst (add_walls (fst (built_container a g)) None
                      (wall_str a) (wall_args_arr a) (n_wall_args a)) of
            Normal con \<Rightarrow> Some con
          | Throws e \<Rightarrow> None
          | Undefined \<Rightarrow> None))"

fun result_of :: "outcome \<Rightarrow> (string option \<times> out_params) option" where
  \<comment> \<open>what the caller receives from a call that returns: the returned pointer and the
      output parameters\<close>
  "result_of (Returns r out s) = Some (r, out)"
| "result_of Undefined_behaviour = None"

section \<open>An example call\<close>

text \<open>
  Five particles in the unit cube, of which the first two are selected, vertices requested,
  no wall. The engine of the example gives the first cell three neighbours and two
  vertices, and the other cells two neighbours and three vertices; its volumes depend on
  the walls of the container.
\<close>

definition example_engine :: engine where
  "example_engine con p =
     \<lparr>cell_neighbors = (if fst p = 0 then [1, - 1, - 3] else [0, - 2]),
      cell_volume = (if walls con = [] then 1 / 2 else 1 / 4),
      cell_vertices = (if fst p = 0 then [0, 0, 0, 1, 2, 3] else [0, 0, 0, 1, 1, 1, - 1, 5, 1 / 2])\<rparr>"

definition example_args :: call_args where
  "example_args =
     \<lparr>start = 0, end' = 2, xmin = 0, xmax = 1, ymin = 0, ymax = 1, zmin = 0, zmax = 1,
      points = (\<lambda>i. real i / 16), nsites = 5, with_vertices = 1, wall_str = [],
      wall_args_arr = (\<lambda>i. 0), n_wall_args = 0, verbose = 0\<rparr>"

definition example_statics :: statics where
  "example_statics = \<lparr>error_message = [], wall_ptr = None\<rparr>"

definition example_outputs :: out_params where
  "example_outputs =
     \<lparr>neighbours = Some [1, - 1, - 3, 0, - 2, - 10],
      max_nn = Some 3,
      volumes = Some [Some (1 / 2), Some (1 / 2)],
      bb_min = Some [Some 0, Some 0, Some 0, Some (- 1), Some 0, Some 0],
      bb_max = Some [Some 1, Some 2, Some 3, Some 1, Some 5, Some 1],
      vertices = Some [Finite 0, Finite 0, Finite 0, Finite 1, Finite 2, Finite 3, NaN, NaN, NaN,
                       Finite 0, Finite 0, Finite 0, Finite 1, Finite 1, Finite 1,
                       Finite (- 1), Finite 5, Finite (1 / 2)],
      max_nv = Some 9\<rparr>"


definition sphere_args :: call_args where
  \<comment> \<open>the example call with a sphere of radius 1 around the origin\<close>
  "sphere_args =
     example_args\<lparr>wall_str := ''sphere'', wall_args_arr := (\<lambda>i. if i = 3 then 1 else 0),
                  n_wall_args := 4\<rparr>"

section \<open>Grid sizing: lemmas\<close>





lemma grid_size_cong:
  assumes "nsites a = nsites b" and "xmin a = xmin b" and "xmax a = xmax b"
    and "ymin a = ymin b" and "ymax a = ymax b" and "zmin a = zmin b" and "zmax a = zmax b"
  shows "grid_size a = grid_size b"
  by (simp only: grid_size_def assms)

section \<open>Walls: lemmas\<close>

lemma add_walls_sphere:
  "n = 4 \<Longrightarrow> 0 < args 3 \<Longrightarrow>
   add_walls con wp ''sphere'' args n =
     (Normal (con\<lparr>walls := walls con @ [wall_sphere (args 0) (args 1) (args 2) (args 3)]\<rparr>),
      Some (wall_sphere (args 0) (args 1) (args 2) (args 3)))"
  by (simp add: add_walls_def add_sphere_def add_cylinder_def add_wall_def Let_def)

lemma add_walls_cylinder:
  "n = 7 \<Longrightarrow> 0 < args 6 \<Longrightarrow>
   add_walls con wp ''cylinder'' args n =
     (Normal (con\<lparr>walls := walls con @
         [wall_cylinder (args 0) (args 1) (args 2) (args 3) (args 4) (args 5) (args 6)]\<rparr>),
      Some (wall_cylinder (args 0) (args 1) (args 2) (args 3) (args 4) (args 5) (args 6)))"
  by (simp add: add_walls_def add_sphere_def add_cylinder_def add_wall_def Let_def)

lemma add_walls_other:
  "name \<noteq> ''sphere'' \<Longrightarrow> name \<noteq> ''cylinder'' \<Longrightarrow> add_walls con wp name args n = (Normal con, wp)"
  by (simp add: add_walls_def add_sphere_def add_cylinder_def)

lemma add_walls_throws_iff:
  "(\<exists>m. fst (add_walls con wp name args n) = Throws (invalid_argument m)) \<longleftrightarrow>
     (name = ''sphere'' \<and> (n \<noteq> 4 \<or> args 3 \<le> 0)) \<or> (name = ''cylinder'' \<and> (n \<noteq> 7 \<or> args 6 \<le> 0))"
  by (auto simp: add_walls_def add_sphere_def add_cylinder_def Let_def)

lemma add_walls_no_other_fault:
  "fst (add_walls con wp name args n) \<noteq> Undefined \<and>
   (\<forall>m. fst (add_walls con wp name args n) \<noteq> Throws (length_error m))"
  by (auto simp: add_walls_def add_sphere_def add_cylinder_def Let_def)

lemma add_walls_fst:
  "fst (add_walls con wp name args n) = fst (add_walls con wp' name args n)"
  by (simp add: add_walls_def add_sphere_def add_cylinder_def Let_def)

lemma add_walls_snd:
  "snd (add_walls con wp name args n) =
     (if name = ''sphere'' \<and> n = 4 \<and> 0 < args 3
        then Some (wall_sphere (args 0) (args 1) (args 2) (args 3))
      else if name = ''cylinder'' \<and> n = 7 \<and> 0 < args 6
        then Some (wall_cylinder (args 0) (args 1) (args 2) (args 3) (args 4) (args 5) (args 6))
      else wp)"
  by (simp add: add_walls_def add_sphere_def add_cylinder_def Let_def)

section \<open>Population of the container: lemmas\<close>



lemma populate_fold:
  "fold (populate_step a) js (con, po) =
     (con\<lparr>particles := particles con @ map (site a) js\<rparr>,
      po @ map (site a) (filter (\<lambda>i. start a \<le> int i \<and> int i < end' a) js))"
  by (induction js arbitrary: con po) (simp_all add: populate_step_def put_order_def put_def)

lemma populate_eq:
  "populate a con =
     (con\<lparr>particles := particles con @ map (site a) [0..<nat (nsites a)]\<rparr>,
      map (site a) (filter (\<lambda>i. start a \<le> int i \<and> int i < end' a) [0..<nat (nsites a)]))"
  by (simp add: populate_def populate_fold)

lemma filter_selected:
  "filter (\<lambda>i. s \<le> int i \<and> int i < e) [0..<n] = [nat s..<min (nat e) n]"
proof (induction n)
  case 0
  show ?case by simp
next
  case (Suc n)
  show ?case
  proof (cases "s \<le> int n \<and> int n < e")
    case True
    then have "nat s \<le> n" "min (nat e) n = n" "min (nat e) (Suc n) = Suc n"
      by linarith+
    then show ?thesis
      using True Suc by simp
  next
    case False
    then have "min (nat e) (Suc n) \<le> nat s \<or> min (nat e) (Suc n) = min (nat e) n"
      by linarith
    then show ?thesis
      using False Suc by auto
  qed
qed

lemma built_container_eq:
  "built_container a (gx, gy, gz) =
     ((new_container (xmin a) (xmax a) (ymin a) (ymax a) (zmin a) (zmax a) gx gy gz False False False 8)
        \<lparr>particles := map (site a) [0..<nat (nsites a)]\<rparr>,
      map (site a) [nat (start a)..<min (nat (end' a)) (nat (nsites a))])"
  by (simp add: built_container_def populate_eq filter_selected new_container_def)

lemma built_container_walls: "walls (fst (built_container a g)) = []"
  by (cases g) (simp add: built_container_def populate_eq new_container_def)

lemma built_container_snd:
  "snd (built_container a g) = map (site a) [nat (start a)..<min (nat (end' a)) (nat (nsites a))]"
  by (cases g) (simp add: built_container_eq)

lemma built_container_selected:
  "end' a \<le> nsites a \<Longrightarrow> snd (built_container a g) = selected a"
  by (simp add: built_container_snd selected_def min_def)



lemma selected_ids:
  "0 \<le> start a \<Longrightarrow> map fst (selected a) =
     map (\<lambda>i. start a + int i) [0..<0 + length (selected a)]"
  by (rule nth_equalityI) (auto simp: selected_def site_def)

lemma selected_length:
  "0 \<le> start a \<Longrightarrow> start a \<le> end' a \<Longrightarrow> length (selected a) = nat (end' a - start a)"
  by (simp add: selected_def nat_diff_distrib)

section \<open>Bounding boxes: lemmas\<close>

lemma bb_step_length:
  "bb_step vs i j mm = mm' \<Longrightarrow> length (fst mm') = length (fst mm) \<and> length (snd mm') = length (snd mm)"
  by (cases mm) (auto simp: bb_step_def)

lemma fold_bb_step_length:
  "length (fst (fold (bb_step vs i) js mm)) = length (fst mm) \<and>
   length (snd (fold (bb_step vs i) js mm)) = length (snd mm)"
proof (induction js arbitrary: mm)
  case Nil
  show ?case by simp
next
  case (Cons j js)
  show ?case
    using Cons [of "bb_step vs i j mm"] bb_step_length [OF refl, of vs i j mm] by simp
qed

lemma fold_rows_length:
  "length (fst (fold (\<lambda>i. fold (bb_step vs i) [0..<3]) is mm)) = length (fst mm) \<and>
   length (snd (fold (\<lambda>i. fold (bb_step vs i) [0..<3]) is mm)) = length (snd mm)"
proof (induction "is" arbitrary: mm)
  case Nil
  show ?case by simp
next
  case (Cons i "is")
  show ?case
    using Cons [of "fold (bb_step vs i) [0..<3] mm"] fold_bb_step_length [of vs i "[0..<3]" mm]
    by simp
qed

lemma bb_loops_length:
  "3 \<le> length vs \<Longrightarrow> length (fst (bb_loops vs)) = 3 \<and> length (snd (bb_loops vs)) = 3"
  using fold_rows_length [of vs "[1..<length vs div 3]" "(take 3 vs, take 3 vs)"]
  by (simp add: bb_loops_def)

lemma triplet_explicit:
  "i * 3 + 3 \<le> length vs \<Longrightarrow>
   take 3 (drop (i * 3) vs) = [vs ! (i * 3), vs ! (i * 3 + 1), vs ! (i * 3 + 2)]"
  by (simp add: numeral_3_eq_3 take_Suc_conv_app_nth)

lemma bb_inner:
  assumes "i * 3 + 3 \<le> length vs" and "length tmin = 3" and "length tmax = 3"
  shows "fold (bb_step vs i) [0..<3] (tmin, tmax) =
           (map2 min tmin (take 3 (drop (i * 3) vs)), map2 max tmax (take 3 (drop (i * 3) vs)))"
proof -
  obtain a b c where tmin: "tmin = [a, b, c]"
    using assms(2) by (auto simp: length_Suc_conv numeral_3_eq_3)
  obtain d e f where tmax: "tmax = [d, e, f]"
    using assms(3) by (auto simp: length_Suc_conv numeral_3_eq_3)
  have upt: "[0..<3] = [0, 1, 2]"
    by (simp add: upt_rec)
  show ?thesis
    unfolding triplet_explicit [OF assms(1)] tmin tmax upt
    by (simp add: bb_step_def min_def max_def)
qed

lemma bb_outer:
  assumes "\<forall>i\<in>set js. i * 3 + 3 \<le> length vs" and "length tmin = 3" and "length tmax = 3"
  shows "fold (\<lambda>i. fold (bb_step vs i) [0..<3]) js (tmin, tmax) =
         fold (\<lambda>t (lo, hi). (map2 min lo t, map2 max hi t))
           (map (\<lambda>i. take 3 (drop (i * 3) vs)) js) (tmin, tmax)"
  using assms
proof (induction js arbitrary: tmin tmax)
  case Nil
  show ?case by simp
next
  case (Cons i js)
  have i: "i * 3 + 3 \<le> length vs"
    using Cons.prems(1) by simp
  have l: "length (take 3 (drop (i * 3) vs)) = 3"
    using i by simp
  have "fold (\<lambda>i. fold (bb_step vs i) [0..<3]) js
          (map2 min tmin (take 3 (drop (i * 3) vs)), map2 max tmax (take 3 (drop (i * 3) vs))) =
        fold (\<lambda>t (lo, hi). (map2 min lo t, map2 max hi t))
           (map (\<lambda>i. take 3 (drop (i * 3) vs)) js)
          (map2 min tmin (take 3 (drop (i * 3) vs)), map2 max tmax (take 3 (drop (i * 3) vs)))"
    using Cons.prems l by (intro Cons.IH) simp_all
  then show ?case
    by (simp add: bb_inner [OF i Cons.prems(2,3)])
qed

lemma bounding_box_spec: "bounding_box vs = bb_spec vs"
proof (cases "length vs < 3")
  case True
  then have "length vs div 3 = 0"
    by simp
  then show ?thesis
    using True by (simp add: bounding_box_def bb_spec_def triplets_def)
next
  case False
  then have n: "0 < length vs div 3"
    by simp
  have upt: "[0..<length vs div 3] = 0 # [1..<length vs div 3]"
    using n by (simp add: upt_rec)
  have in_range: "\<forall>i\<in>set [1..<length vs div 3]. i * 3 + 3 \<le> length vs"
    by auto
  have "bb_loops vs =
      fold (\<lambda>t (lo, hi). (map2 min lo t, map2 max hi t))
        (map (\<lambda>i. take 3 (drop (i * 3) vs)) [1..<length vs div 3]) (take 3 vs, take 3 vs)"
    unfolding bb_loops_def using False by (intro bb_outer [OF in_range]) simp_all
  then show ?thesis
    using False by (simp add: bounding_box_def bb_spec_def triplets_def upt)
qed

lemma bb_fold_bounds:
  assumes "\<forall>t\<in>set ts. length t = 3" and "length lo = 3" and "length hi = 3"
    and "fold (\<lambda>t (lo, hi). (map2 min lo t, map2 max hi t)) ts (lo, hi) = (lo' :: real list, hi')"
    and "j < 3"
  shows "lo' ! j \<le> lo ! j \<and> hi ! j \<le> hi' ! j \<and>
         (\<forall>t\<in>set ts. lo' ! j \<le> t ! j \<and> t ! j \<le> hi' ! j)"
  using assms
proof (induction ts arbitrary: lo hi)
  case Nil
  then show ?case by simp
next
  case (Cons t ts)
  have lt: "length t = 3"
    using Cons.prems(1) by simp
  have step: "fold (\<lambda>t (lo, hi). (map2 min lo t, map2 max hi t)) ts
                (map2 min lo t, map2 max hi t) = (lo', hi')"
    using Cons.prems(4) by simp
  have ih: "lo' ! j \<le> map2 min lo t ! j \<and> map2 max hi t ! j \<le> hi' ! j \<and>
         (\<forall>t\<in>set ts. lo' ! j \<le> t ! j \<and> t ! j \<le> hi' ! j)"
    using Cons.prems(1-3,5) lt step by (intro Cons.IH) simp_all
  have "map2 min lo t ! j = min (lo ! j) (t ! j)" "map2 max hi t ! j = max (hi ! j) (t ! j)"
    using Cons.prems(2,3,5) lt by simp_all
  then show ?case
    using ih by auto
qed

lemma bb_spec_bounds:
  assumes "bb_spec vs = Some (lo, hi)" and "j < 3"
  shows "lo ! j \<le> hi ! j \<and> (\<forall>i<length vs div 3. lo ! j \<le> vs ! (i * 3 + j) \<and> vs ! (i * 3 + j) \<le> hi ! j)"
proof -
  obtain t ts where tr: "triplets vs = t # ts"
    and fd: "fold (\<lambda>t (lo, hi). (map2 min lo t, map2 max hi t)) ts (t, t) = (lo, hi)"
    using assms(1) by (auto simp: bb_spec_def split: list.splits)
  have len: "\<forall>u\<in>set (triplets vs). length u = 3"
    by (auto simp: triplets_def)
  then have lt: "length t = 3" and lts: "\<forall>u\<in>set ts. length u = 3"
    using tr by simp_all
  have b: "lo ! j \<le> t ! j \<and> t ! j \<le> hi ! j \<and> (\<forall>u\<in>set ts. lo ! j \<le> u ! j \<and> u ! j \<le> hi ! j)"
    using bb_fold_bounds [OF lts lt lt fd assms(2)] by simp
  then have all: "\<forall>u\<in>set (triplets vs). lo ! j \<le> u ! j \<and> u ! j \<le> hi ! j"
    using tr by simp
  have "lo ! j \<le> vs ! (i * 3 + j) \<and> vs ! (i * 3 + j) \<le> hi ! j" if i: "i < length vs div 3" for i
  proof -
    have "take 3 (drop (i * 3) vs) \<in> set (triplets vs)"
      using i by (simp add: triplets_def)
    moreover have "take 3 (drop (i * 3) vs) ! j = vs ! (i * 3 + j)"
      using i assms(2) by simp
    ultimately show ?thesis
      using all by fastforce
  qed
  then show ?thesis
    using b by auto
qed

section \<open>The loop over the selected particles: lemmas\<close>

lemma copy3_append:
  assumes "length tmp = 3" and "length done = off"
  shows "copy3 tmp off (done @ replicate (Suc m * 3) None) =
         (done @ map Some tmp) @ replicate (m * 3) None"
proof -
  obtain t0 t1 t2 where tmp: "tmp = [t0, t1, t2]"
    using assms(1) by (auto simp: length_Suc_conv numeral_3_eq_3)
  have rep: "replicate (Suc m * 3) None = None # None # None # replicate (m * 3) (None :: real option)"
    by (simp add: numeral_3_eq_3)
  have upt: "[0..<3] = [0, 1, 2]"
    by (simp add: upt_rec)
  show ?thesis
    unfolding copy3_def tmp rep upt using assms(2)
    by (simp add: list_update_append)
qed

lemma cell_step_closed:
  assumes id: "fst p = start a + int k"
    and vs: "3 \<le> length (cell_vertices (cc con p))"
    and len: "length dn = k" "length dvol = k" "length dmin = k * 3" "length dmax = k * 3"
      "with_vertices a \<noteq> 0 \<longrightarrow> length dv = k"
  shows "cell_step cc con a p
           \<lparr>n_list = dn @ replicate (Suc m) [],
            vertices_list = (if with_vertices a \<noteq> 0 then dv @ replicate (Suc m) [] else []),
            vols = dvol @ replicate (Suc m) None,
            bb_m = dmin @ replicate (Suc m * 3) None,
            bb_M = dmax @ replicate (Suc m * 3) None\<rparr> =
         Some
           \<lparr>n_list = (dn @ [cell_neighbors (cc con p)]) @ replicate m [],
            vertices_list = (if with_vertices a \<noteq> 0
                             then (dv @ [cell_vertices (cc con p)]) @ replicate m [] else []),
            vols = (dvol @ [Some (cell_volume (cc con p))]) @ replicate m None,
            bb_m = (dmin @ map Some (fst (bb_loops (cell_vertices (cc con p))))) @ replicate (m * 3) None,
            bb_M = (dmax @ map Some (snd (bb_loops (cell_vertices (cc con p))))) @ replicate (m * 3) None\<rparr>"
proof -
  have l3: "length (fst (bb_loops (cell_vertices (cc con p)))) = 3"
      "length (snd (bb_loops (cell_vertices (cc con p)))) = 3"
    using bb_loops_length [OF vs] by simp_all
  have cmin: "copy3 (fst (bb_loops (cell_vertices (cc con p)))) (k * 3) (dmin @ replicate (Suc m * 3) None) =
      (dmin @ map Some (fst (bb_loops (cell_vertices (cc con p))))) @ replicate (m * 3) None"
    using l3(1) len(3) by (rule copy3_append)
  have cmax: "copy3 (snd (bb_loops (cell_vertices (cc con p)))) (k * 3) (dmax @ replicate (Suc m * 3) None) =
      (dmax @ map Some (snd (bb_loops (cell_vertices (cc con p))))) @ replicate (m * 3) None"
    using l3(2) len(4) by (rule copy3_append)
  have bb: "bounding_box (cell_vertices (cc con p)) = Some (bb_loops (cell_vertices (cc con p)))"
    using vs by (simp add: bounding_box_def)
  obtain tmin tmax where mm: "bb_loops (cell_vertices (cc con p)) = (tmin, tmax)"
    by (cases "bb_loops (cell_vertices (cc con p))") auto
  show ?thesis
    using id len(1,2,5) cmin cmax
    by (simp add: cell_step_def Let_def bb mm list_update_append del: replicate.simps)
       (simp add: replicate_app_Cons_same)
qed

lemma cell_loop_closed:
  assumes ids: "map fst po = map (\<lambda>i. start a + int i) [k..<k + length po]"
    and m: "length po \<le> m"
    and vs: "\<forall>p\<in>set po. 3 \<le> length (cell_vertices (cc con p))"
    and len: "length dn = k" "length dvol = k" "length dmin = k * 3" "length dmax = k * 3"
      "with_vertices a \<noteq> 0 \<longrightarrow> length dv = k"
  shows "cell_loop cc con a po
           \<lparr>n_list = dn @ replicate m [],
            vertices_list = (if with_vertices a \<noteq> 0 then dv @ replicate m [] else []),
            vols = dvol @ replicate m None,
            bb_m = dmin @ replicate (m * 3) None,
            bb_M = dmax @ replicate (m * 3) None\<rparr> =
         Some
           \<lparr>n_list = dn @ map (\<lambda>p. cell_neighbors (cc con p)) po @ replicate (m - length po) [],
            vertices_list = (if with_vertices a \<noteq> 0
               then dv @ map (\<lambda>p. cell_vertices (cc con p)) po @ replicate (m - length po) []
               else []),
            vols = dvol @ map (\<lambda>p. Some (cell_volume (cc con p))) po @ replicate (m - length po) None,
            bb_m = dmin @ concat (map (\<lambda>p. map Some (fst (bb_loops (cell_vertices (cc con p))))) po)
                     @ replicate ((m - length po) * 3) None,
            bb_M = dmax @ concat (map (\<lambda>p. map Some (snd (bb_loops (cell_vertices (cc con p))))) po)
                     @ replicate ((m - length po) * 3) None\<rparr>"
  using assms
proof (induction po arbitrary: k m dn dv dvol dmin dmax)
  case Nil
  show ?case by simp
next
  case (Cons p po)
  obtain m' where m': "m = Suc m'"
    using Cons.prems(2) by (cases m) auto
  have upt: "[k..<k + length (p # po)] = k # [Suc k..<Suc k + length po]"
    by (simp add: upt_rec)
  have id: "fst p = start a + int k"
    and ids': "map fst po = map (\<lambda>i. start a + int i) [Suc k..<Suc k + length po]"
    using Cons.prems(1) unfolding upt by simp_all
  have v: "3 \<le> length (cell_vertices (cc con p))"
    and vs': "\<forall>p\<in>set po. 3 \<le> length (cell_vertices (cc con p))"
    using Cons.prems(3) by simp_all
  have l3: "length (fst (bb_loops (cell_vertices (cc con p)))) = 3"
      "length (snd (bb_loops (cell_vertices (cc con p)))) = 3"
    using bb_loops_length [OF v] by simp_all
  note step = cell_step_closed [where cc = cc and con = con and m = m', OF id v Cons.prems(4-8)]
  have ih: "cell_loop cc con a po
           \<lparr>n_list = (dn @ [cell_neighbors (cc con p)]) @ replicate m' [],
            vertices_list = (if with_vertices a \<noteq> 0
                             then (dv @ [cell_vertices (cc con p)]) @ replicate m' [] else []),
            vols = (dvol @ [Some (cell_volume (cc con p))]) @ replicate m' None,
            bb_m = (dmin @ map Some (fst (bb_loops (cell_vertices (cc con p))))) @ replicate (m' * 3) None,
            bb_M = (dmax @ map Some (snd (bb_loops (cell_vertices (cc con p))))) @ replicate (m' * 3) None\<rparr> =
         Some
           \<lparr>n_list = (dn @ [cell_neighbors (cc con p)]) @ map (\<lambda>p. cell_neighbors (cc con p)) po
                       @ replicate (m' - length po) [],
            vertices_list = (if with_vertices a \<noteq> 0
               then (dv @ [cell_vertices (cc con p)]) @ map (\<lambda>p. cell_vertices (cc con p)) po
                      @ replicate (m' - length po) []
               else []),
            vols = (dvol @ [Some (cell_volume (cc con p))]) @ map (\<lambda>p. Some (cell_volume (cc con p))) po
                     @ replicate (m' - length po) None,
            bb_m = (dmin @ map Some (fst (bb_loops (cell_vertices (cc con p)))))
                     @ concat (map (\<lambda>p. map Some (fst (bb_loops (cell_vertices (cc con p))))) po)
                     @ replicate ((m' - length po) * 3) None,
            bb_M = (dmax @ map Some (snd (bb_loops (cell_vertices (cc con p)))))
                     @ concat (map (\<lambda>p. map Some (snd (bb_loops (cell_vertices (cc con p))))) po)
                     @ replicate ((m' - length po) * 3) None\<rparr>"
    using Cons.prems(2,4-8) l3 m'
    by (intro Cons.IH [OF ids' _ vs']) simp_all
  show ?case
    unfolding m' cell_loop.simps step option.case ih
    by simp
qed

lemma cell_step_vertices:
  "cell_step cc con a p bufs = Some bufs' \<Longrightarrow> 3 \<le> length (cell_vertices (cc con p))"
  by (auto simp: cell_step_def Let_def bounding_box_def split: if_splits option.splits)

lemma cell_loop_vertices:
  "cell_loop cc con a po bufs = Some bufs' \<Longrightarrow> \<forall>p\<in>set po. 3 \<le> length (cell_vertices (cc con p))"
proof (induction po arbitrary: bufs)
  case Nil
  show ?case by simp
next
  case (Cons p po)
  from Cons.prems obtain b where st: "cell_step cc con a p bufs = Some b"
    and lp: "cell_loop cc con a po b = Some bufs'"
    by (auto split: option.splits)
  show ?case
    using cell_step_vertices [OF st] Cons.IH [OF lp] by simp
qed

lemma cell_loop_selected:
  assumes range: "0 \<le> start a" "start a \<le> end' a"
    and vs: "\<forall>p\<in>set (selected a). 3 \<le> length (cell_vertices (cc con p))"
  shows "cell_loop cc con a (selected a) (init_buffers (nat (end' a - start a)) (with_vertices a)) =
         Some (cell_results cc con (with_vertices a) (selected a))"
proof -
  have len: "length (selected a) = nat (end' a - start a)"
    using range by (simp add: selected_def nat_diff_distrib)
  have "cell_loop cc con a (selected a)
           \<lparr>n_list = [] @ replicate (length (selected a)) [],
            vertices_list = (if with_vertices a \<noteq> 0 then [] @ replicate (length (selected a)) [] else []),
            vols = [] @ replicate (length (selected a)) None,
            bb_m = [] @ replicate (length (selected a) * 3) None,
            bb_M = [] @ replicate (length (selected a) * 3) None\<rparr> =
         Some
           \<lparr>n_list = [] @ map (\<lambda>p. cell_neighbors (cc con p)) (selected a)
                       @ replicate (length (selected a) - length (selected a)) [],
            vertices_list = (if with_vertices a \<noteq> 0
               then [] @ map (\<lambda>p. cell_vertices (cc con p)) (selected a)
                      @ replicate (length (selected a) - length (selected a)) []
               else []),
            vols = [] @ map (\<lambda>p. Some (cell_volume (cc con p))) (selected a)
                     @ replicate (length (selected a) - length (selected a)) None,
            bb_m = [] @ concat (map (\<lambda>p. map Some (fst (bb_loops (cell_vertices (cc con p))))) (selected a))
                     @ replicate ((length (selected a) - length (selected a)) * 3) None,
            bb_M = [] @ concat (map (\<lambda>p. map Some (snd (bb_loops (cell_vertices (cc con p))))) (selected a))
                     @ replicate ((length (selected a) - length (selected a)) * 3) None\<rparr>"
    by (rule cell_loop_closed [where cc = cc and con = con, OF selected_ids [OF range(1)] _ vs]) simp_all
  then show ?thesis
    by (cases "with_vertices a = 0") (simp_all add: init_buffers_def cell_results_def len)
qed




lemma cell_step_engine_cong:
  "e1 con p = e2 con p \<Longrightarrow> cell_step e1 con a p bufs = cell_step e2 con a p bufs"
  by (simp add: cell_step_def Let_def)

lemma cell_loop_engine_cong:
  "(\<And>p. e1 con p = e2 con p) \<Longrightarrow> cell_loop e1 con a po bufs = cell_loop e2 con a po bufs"
proof (induction po arbitrary: bufs)
  case Nil
  show ?case by simp
next
  case (Cons p po)
  have "cell_step e1 con a p bufs = cell_step e2 con a p bufs"
    using Cons.prems by (rule cell_step_engine_cong)
  then show ?case
    using Cons by (simp split: option.splits)
qed

section \<open>Packing: lemmas\<close>

lemma fold_size_max:
  "fold (\<lambda>x m. if m < length x then length x else m) rs m0 = fold max (map length rs) m0"
  by (induction rs arbitrary: m0) (simp_all add: max_def not_less)

lemma max_element_size_Max:
  assumes "rows \<noteq> []"
  shows "max_element_size rows = Some (Max (set (map length rows)))"
proof (cases rows)
  case Nil
  then show ?thesis using assms by simp
next
  case (Cons r rs)
  have "Max (set (length r # map length rs)) = fold max (map length rs) (length r)"
    by (rule Max.set_eq_fold)
  then show ?thesis
    using Cons by (simp add: fold_size_max)
qed

lemma max_element_size_None: "max_element_size rows = None \<longleftrightarrow> rows = []"
  by (cases rows) simp_all

lemma pack_length:
  "\<forall>r\<in>set rows. length r \<le> w \<Longrightarrow> length (pack padding w rows) = length rows * w"
  by (induction rows) simp_all

lemma pack_nth:
  assumes "\<forall>r\<in>set rows. length r \<le> w" and "k < length rows" and "j < w"
  shows "pack padding w rows ! (k * w + j) =
           (if j < length (rows ! k) then rows ! k ! j else padding)"
  using assms
proof (induction rows arbitrary: k)
  case Nil
  then show ?case by simp
next
  case (Cons r rows)
  have lr: "length (r @ replicate (w - length r) padding) = w"
    using Cons.prems(1) by simp
  show ?case
  proof (cases k)
    case 0
    have "j < length (r @ replicate (w - length r) padding)"
      using lr Cons.prems(3) by simp
    then have "pack padding w (r # rows) ! j = (r @ replicate (w - length r) padding) ! j"
      unfolding pack.simps by (rule nth_append_left)
    then show ?thesis
      using 0 Cons.prems(1,3) by (simp add: nth_append)
  next
    case (Suc k')
    have "pack padding w (r # rows) ! (w + (k' * w + j)) = pack padding w rows ! (k' * w + j)"
      using lr by (simp only: pack.simps nth_append_length_plus [of "r @ replicate (w - length r) padding", unfolded lr])
    moreover have "pack padding w rows ! (k' * w + j) =
        (if j < length (rows ! k') then rows ! k' ! j else padding)"
      using Cons.prems Suc by (intro Cons.IH) simp_all
    ultimately show ?thesis
      using Suc by (simp add: add.assoc)
  qed
qed

lemma packed_rows:
  fixes rows :: "'a list list"
  assumes "rows \<noteq> []"
  shows "length (pack padding (Max (set (map length rows))) rows) =
           length rows * Max (set (map length rows)) \<and>
         (\<forall>k<length rows. \<forall>j<Max (set (map length rows)).
            pack padding (Max (set (map length rows))) rows ! (k * Max (set (map length rows)) + j) =
              (if j < length (rows ! k) then rows ! k ! j else padding))"
proof -
  have le: "\<forall>r\<in>set rows. length r \<le> Max (set (map length rows))"
    by simp
  show ?thesis
    using pack_length [OF le] pack_nth [OF le] by blast
qed

lemma pack_full_rows:
  "\<forall>r\<in>set rows. length r = w \<Longrightarrow> pack padding w rows = concat rows"
  by (induction rows) simp_all

lemma concat_rows_nth:
  assumes "\<forall>r\<in>set rows. length r = w" and "k < length rows" and "j < w"
  shows "concat rows ! (k * w + j) = rows ! k ! j"
proof -
  have le: "\<forall>r\<in>set rows. length r \<le> w"
    using assms(1) by simp
  have "length (rows ! k) = w"
    using assms(1,2) by simp
  then show ?thesis
    using pack_nth [OF le assms(2,3), of undefined] pack_full_rows [OF assms(1), of undefined] assms(3)
    by simp
qed

lemma concat_rows_length:
  "\<forall>r\<in>set rows. length r = w \<Longrightarrow> length (concat rows) = length rows * w"
  by (induction rows) simp_all

lemma pack_outputs_defined:
  assumes "n_list bufs \<noteq> []" and "with_vertices a \<noteq> 0 \<longrightarrow> vertices_list bufs \<noteq> []"
  shows "pack_outputs a bufs = Some
           \<lparr>neighbours = Some (pack (- 10) (Max (set (map length (n_list bufs)))) (n_list bufs)),
            max_nn = Some (int (Max (set (map length (n_list bufs))))),
            volumes = Some (vols bufs),
            bb_min = Some (bb_m bufs),
            bb_max = Some (bb_M bufs),
            vertices = (if with_vertices a \<noteq> 0
               then Some (pack NaN (Max (set (map length (vertices_list bufs))))
                           (map (map Finite) (vertices_list bufs)))
               else None),
            max_nv = Some (if with_vertices a \<noteq> 0
               then int (Max (set (map length (vertices_list bufs)))) else 0)\<rparr>"
proof (cases "with_vertices a = 0")
  case True
  then show ?thesis
    by (simp add: pack_outputs_def max_element_size_Max [OF assms(1)] unassigned_def del: set_map)
next
  case False
  then have "vertices_list bufs \<noteq> []"
    using assms(2) by simp
  then show ?thesis
    using False
    by (simp add: pack_outputs_def max_element_size_Max [OF assms(1)] max_element_size_Max
          unassigned_def del: set_map)
qed

lemma pack_outputs_None:
  "pack_outputs a bufs = None \<longleftrightarrow>
     n_list bufs = [] \<or> (with_vertices a \<noteq> 0 \<and> vertices_list bufs = [])"
  by (auto simp: pack_outputs_def max_element_size_None Let_def split: option.splits)

section \<open>The call: lemmas\<close>

lemma wrap_body_short:
  assumes "grid_size a = Some g" and "end' a < start a"
  shows "wrap_body cc wp a =
     (Throws (length_error ''cannot create std::vector larger than max_size()''), unassigned, wp)"
  using assms by (simp add: wrap_body_def)

lemma wrap_body_walls:
  assumes "grid_size a = Some g" and "start a \<le> end' a"
    and "add_walls (fst (built_container a g)) wp (wall_str a) (wall_args_arr a) (n_wall_args a) =
           (Throws e, wp1)"
  shows "wrap_body cc wp a = (Throws e, unassigned, wp1)"
  using assms by (cases "built_container a g") (simp add: wrap_body_def)

lemma wrap_body_loop:
  assumes "grid_size a = Some g" and "start a \<le> end' a"
    and "add_walls (fst (built_container a g)) wp (wall_str a) (wall_args_arr a) (n_wall_args a) =
           (Normal con, wp1)"
  shows "wrap_body cc wp a =
     (case cell_loop cc con a (snd (built_container a g))
             (init_buffers (nat (end' a - start a)) (with_vertices a)) of
        None \<Rightarrow> (Undefined, unassigned, wp1)
      | Some bufs \<Rightarrow>
         (case pack_outputs a bufs of
            None \<Rightarrow> (Undefined, unassigned, wp1)
          | Some out \<Rightarrow> (Normal (), out, wp1)))"
  using assms by (cases "built_container a g") (simp add: wrap_body_def)

lemma wrap_returns:
  assumes "grid_size a = Some g" and "start a \<le> end' a"
    and "add_walls (fst (built_container a g)) (wall_ptr s) (wall_str a) (wall_args_arr a) (n_wall_args a) =
           (Normal con, wp1)"
    and "cell_loop cc con a (snd (built_container a g))
             (init_buffers (nat (end' a - start a)) (with_vertices a)) = Some bufs"
    and "pack_outputs a bufs = Some out"
  shows "hyperion_voropp_wrap cc s a = Returns None out (s\<lparr>wall_ptr := wp1\<rparr>)"
  by (simp add: hyperion_voropp_wrap_def wrap_body_loop [OF assms(1-3)] assms(4,5))



lemma wrap_body_engine_cong:
  assumes "\<And>g con p.
     fst (add_walls (fst (built_container a g)) wp (wall_str a) (wall_args_arr a) (n_wall_args a)) = Normal con
       \<Longrightarrow> e1 con p = e2 con p"
  shows "wrap_body e1 wp a = wrap_body e2 wp a"
proof (cases "grid_size a")
  case None
  then show ?thesis by (simp add: wrap_body_def)
next
  case (Some g)
  obtain con po where bc: "built_container a g = (con, po)"
    by (cases "built_container a g") auto
  obtain r wp1 where aw: "add_walls con wp (wall_str a) (wall_args_arr a) (n_wall_args a) = (r, wp1)"
    by (cases "add_walls con wp (wall_str a) (wall_args_arr a) (n_wall_args a)") auto
  show ?thesis
  proof (cases r)
    case (Normal con1)
    have "fst (add_walls (fst (built_container a g)) wp (wall_str a) (wall_args_arr a) (n_wall_args a)) = Normal con1"
      using bc aw Normal by simp
    then have "e1 con1 p = e2 con1 p" for p
      by (rule assms)
    then have "cell_loop e1 con1 a po bufs = cell_loop e2 con1 a po bufs" for bufs
      by (rule cell_loop_engine_cong)
    then show ?thesis
      using Some bc aw Normal by (simp add: wrap_body_def)
  next
    case (Throws e)
    then show ?thesis
      using Some bc aw by (simp add: wrap_body_def)
  next
    case Undefined
    then show ?thesis
      using Some bc aw by (simp add: wrap_body_def)
  qed
qed

lemma wrap_sphere_attached:
  assumes "wall_str a = ''sphere''" and "n_wall_args a = 4" and "0 < wall_args_arr a 3"
  shows "hyperion_voropp_wrap compute_cell s a =
         hyperion_voropp_wrap (\<lambda>c. compute_cell (c\<lparr>walls :=
            [wall_sphere (wall_args_arr a 0) (wall_args_arr a 1) (wall_args_arr a 2) (wall_args_arr a 3)]\<rparr>)) s a"
proof -
  have "wrap_body compute_cell (wall_ptr s) a =
        wrap_body (\<lambda>c. compute_cell (c\<lparr>walls :=
            [wall_sphere (wall_args_arr a 0) (wall_args_arr a 1) (wall_args_arr a 2) (wall_args_arr a 3)]\<rparr>)) (wall_ptr s) a"
    by (rule wrap_body_engine_cong)
       (simp add: assms add_walls_sphere built_container_walls, auto)
  then show ?thesis
    by (simp add: hyperion_voropp_wrap_def)
qed

lemma wrap_cylinder_attached:
  assumes "wall_str a = ''cylinder''" and "n_wall_args a = 7" and "0 < wall_args_arr a 6"
  shows "hyperion_voropp_wrap compute_cell s a =
         hyperion_voropp_wrap (\<lambda>c. compute_cell (c\<lparr>walls :=
            [wall_cylinder (wall_args_arr a 0) (wall_args_arr a 1) (wall_args_arr a 2) (wall_args_arr a 3)
               (wall_args_arr a 4) (wall_args_arr a 5) (wall_args_arr a 6)]\<rparr>)) s a"
proof -
  have "wrap_body compute_cell (wall_ptr s) a =
        wrap_body (\<lambda>c. compute_cell (c\<lparr>walls :=
            [wall_cylinder (wall_args_arr a 0) (wall_args_arr a 1) (wall_args_arr a 2) (wall_args_arr a 3)
               (wall_args_arr a 4) (wall_args_arr a 5) (wall_args_arr a 6)]\<rparr>)) (wall_ptr s) a"
    by (rule wrap_body_engine_cong)
       (simp add: assms add_walls_cylinder built_container_walls, auto)
  then show ?thesis
    by (simp add: hyperion_voropp_wrap_def)
qed

lemma cell_container_walls:
  assumes "grid_size a = Some g"
    and "add_walls (fst (built_container a g)) wp (wall_str a) (wall_args_arr a) (n_wall_args a) = (r, wp1)"
  shows "cell_container a = (case r of Normal con \<Rightarrow> Some con | Throws e \<Rightarrow> None | Undefined \<Rightarrow> None)"
proof -
  have "fst (add_walls (fst (built_container a g)) None (wall_str a) (wall_args_arr a) (n_wall_args a)) = r"
    using assms(2) add_walls_fst [of "fst (built_container a g)" None "wall_str a" "wall_args_arr a" "n_wall_args a" wp]
    by simp
  then show ?thesis
    using assms(1) by (simp add: cell_container_def)
qed

lemma wrap_success_inv:
  assumes call: "hyperion_voropp_wrap cc s a = Returns None out s'"
    and range: "0 \<le> start a" "end' a \<le> nsites a"
  shows "\<exists>con. cell_container a = Some con \<and> start a < end' a \<and>
           (\<forall>p\<in>set (selected a). 3 \<le> length (cell_vertices (cc con p))) \<and>
           pack_outputs a (cell_results cc con (with_vertices a) (selected a)) = Some out"
proof -
  obtain g where g: "grid_size a = Some g"
    using call by (cases "grid_size a") (auto simp: hyperion_voropp_wrap_def wrap_body_def)
  have le: "start a \<le> end' a"
    using call g by (auto simp: hyperion_voropp_wrap_def wrap_body_def Let_def split: if_splits)
  obtain con0 po where bc: "built_container a g = (con0, po)"
    by (cases "built_container a g") auto
  have po: "po = selected a"
    using built_container_selected [OF range(2), of g] bc by simp
  obtain r wp1 where aw: "add_walls con0 (wall_ptr s) (wall_str a) (wall_args_arr a) (n_wall_args a) = (r, wp1)"
    by (cases "add_walls con0 (wall_ptr s) (wall_str a) (wall_args_arr a) (n_wall_args a)") auto
  obtain con where r: "r = Normal con"
    using call g le bc aw
    by (cases r) (auto simp: hyperion_voropp_wrap_def wrap_body_def Let_def)
  have cont: "cell_container a = Some con"
    using cell_container_walls [OF g, of "wall_ptr s" r wp1] bc aw r by simp
  obtain bufs where lp: "cell_loop cc con a po
       (init_buffers (nat (end' a - start a)) (with_vertices a)) = Some bufs"
    using call g le bc aw r
    by (cases "cell_loop cc con a po (init_buffers (nat (end' a - start a)) (with_vertices a))")
       (auto simp: hyperion_voropp_wrap_def wrap_body_def Let_def)
  have pk: "pack_outputs a bufs = Some out"
    using call g le bc aw r lp
    by (cases "pack_outputs a bufs") (auto simp: hyperion_voropp_wrap_def wrap_body_def Let_def)
  have vs: "\<forall>p\<in>set (selected a). 3 \<le> length (cell_vertices (cc con p))"
    using cell_loop_vertices [OF lp] po by simp
  have bufs: "bufs = cell_results cc con (with_vertices a) (selected a)"
    using cell_loop_selected [where cc = cc and con = con, OF range(1) le vs] lp po by simp
  have "n_list bufs \<noteq> []"
    using pk pack_outputs_None [of a bufs] by auto
  then have "selected a \<noteq> []"
    by (simp add: bufs cell_results_def)
  then have "start a < end' a"
    using range(1) by (simp add: selected_def) linarith
  then show ?thesis
    using cont vs pk bufs by auto
qed

lemma wrap_body_independent:
  "fst (wrap_body cc wp a) = fst (wrap_body cc wp' a) \<and>
   fst (snd (wrap_body cc wp a)) = fst (snd (wrap_body cc wp' a))"
proof (cases "grid_size a")
  case None
  then show ?thesis
    by (simp add: wrap_body_def)
next
  case (Some g)
  show ?thesis
  proof (cases "end' a < start a")
    case True
    then show ?thesis
      by (simp add: wrap_body_short [OF Some])
  next
    case False
    then have le: "start a \<le> end' a"
      by simp
    obtain r wp1 where aw: "add_walls (fst (built_container a g)) wp (wall_str a)
        (wall_args_arr a) (n_wall_args a) = (r, wp1)"
      by (cases "add_walls (fst (built_container a g)) wp (wall_str a)
        (wall_args_arr a) (n_wall_args a)") auto
    obtain r' wp1' where aw': "add_walls (fst (built_container a g)) wp' (wall_str a)
        (wall_args_arr a) (n_wall_args a) = (r', wp1')"
      by (cases "add_walls (fst (built_container a g)) wp' (wall_str a)
        (wall_args_arr a) (n_wall_args a)") auto
    have r: "r' = r"
      using add_walls_fst [of "fst (built_container a g)" wp "wall_str a" "wall_args_arr a"
          "n_wall_args a" wp'] aw aw' by simp
    show ?thesis
    proof (cases r)
      case (Normal con)
      show ?thesis
        unfolding wrap_body_loop [OF Some le aw [unfolded Normal]]
          wrap_body_loop [OF Some le aw' [unfolded r Normal]]
        by (simp split: option.splits)
    next
      case (Throws e)
      show ?thesis
        unfolding wrap_body_walls [OF Some le aw [unfolded Throws]]
          wrap_body_walls [OF Some le aw' [unfolded r Throws]]
        by simp
    next
      case Undefined
      then show ?thesis
        using add_walls_no_other_fault [of "fst (built_container a g)" wp "wall_str a"
            "wall_args_arr a" "n_wall_args a"] aw by simp
    qed
  qed
qed

lemma wrap_result_independent:
  "result_of (hyperion_voropp_wrap cc s a) = result_of (hyperion_voropp_wrap cc s' a)"
proof -
  obtain f out wp where b: "wrap_body cc (wall_ptr s) a = (f, out, wp)"
    by (cases "wrap_body cc (wall_ptr s) a") auto
  obtain f' out' wp' where b': "wrap_body cc (wall_ptr s') a = (f', out', wp')"
    by (cases "wrap_body cc (wall_ptr s') a") auto
  have "f' = f" "out' = out"
    using wrap_body_independent [of cc "wall_ptr s" a "wall_ptr s'"] b b' by simp_all
  then show ?thesis
    by (cases f) (simp_all add: hyperion_voropp_wrap_def b b' Let_def)
qed

lemma wrap_body_unassigned:
  "fst (wrap_body cc wp a) \<noteq> Normal () \<Longrightarrow> fst (snd (wrap_body cc wp a)) = unassigned"
  by (auto simp: wrap_body_def Let_def split: option.splits prod.splits flow.splits if_splits)

lemma wrap_failure_unassigned:
  assumes "hyperion_voropp_wrap cc s a = Returns (Some m) out s1"
  shows "out = unassigned"
proof -
  obtain f out' wp where b: "wrap_body cc (wall_ptr s) a = (f, out', wp)"
    by (cases "wrap_body cc (wall_ptr s) a") auto
  have "f \<noteq> Normal ()" "out = out'"
    using assms by (cases f; simp add: hyperion_voropp_wrap_def b Let_def)+
  then show ?thesis
    using wrap_body_unassigned [of cc "wall_ptr s" a] b by simp
qed

lemma wrap_body_wall_ptr:
  "fst (wrap_body cc wp a) \<noteq> Undefined \<Longrightarrow>
   snd (snd (wrap_body cc wp a)) =
     (if start a \<le> end' a \<and> wall_str a = ''sphere'' \<and> n_wall_args a = 4 \<and> 0 < wall_args_arr a 3
        then Some (wall_sphere (wall_args_arr a 0) (wall_args_arr a 1) (wall_args_arr a 2)
                     (wall_args_arr a 3))
      else if start a \<le> end' a \<and> wall_str a = ''cylinder'' \<and> n_wall_args a = 7 \<and>
              0 < wall_args_arr a 6
        then Some (wall_cylinder (wall_args_arr a 0) (wall_args_arr a 1) (wall_args_arr a 2)
                     (wall_args_arr a 3) (wall_args_arr a 4) (wall_args_arr a 5)
                     (wall_args_arr a 6))
      else wp)"
proof (cases "grid_size a")
  case None
  assume "fst (wrap_body cc wp a) \<noteq> Undefined"
  then show ?thesis
    using None by (simp add: wrap_body_def)
next
  case (Some g)
  show ?thesis
  proof (cases "end' a < start a")
    case True
    then show ?thesis
      by (simp add: wrap_body_short [OF Some])
  next
    case False
    then have le: "start a \<le> end' a"
      by simp
    obtain r wp1 where aw: "add_walls (fst (built_container a g)) wp (wall_str a)
        (wall_args_arr a) (n_wall_args a) = (r, wp1)"
      by (cases "add_walls (fst (built_container a g)) wp (wall_str a)
        (wall_args_arr a) (n_wall_args a)") auto
    have wp1: "wp1 = snd (add_walls (fst (built_container a g)) wp (wall_str a)
        (wall_args_arr a) (n_wall_args a))"
      using aw by simp
    have "snd (snd (wrap_body cc wp a)) = wp1"
    proof (cases r)
      case (Normal con)
      show ?thesis
        unfolding wrap_body_loop [OF Some le aw [unfolded Normal]]
        by (simp split: option.splits)
    next
      case (Throws e)
      show ?thesis
        unfolding wrap_body_walls [OF Some le aw [unfolded Throws]] by simp
    next
      case Undefined
      then show ?thesis
        using add_walls_no_other_fault [of "fst (built_container a g)" wp "wall_str a"
            "wall_args_arr a" "n_wall_args a"] aw by simp
    qed
    then show ?thesis
      unfolding wp1 add_walls_snd using le by simp
  qed
qed

section \<open>The example call: evaluation\<close>

lemma example_grid: "grid_size example_args = Some (2, 2, 2)"
  by (simp add: example_args_def grid_size_def grid_axis_def particle_block_def cbrt_def ddiv_def
        dmul_def to_int_def truncated_def INT_MAX_def INT_MIN_def)

lemma example_grids:
  "grid_size (example_args\<lparr>start := b, end' := e\<rparr>) = Some (2, 2, 2)"
  "grid_size (example_args\<lparr>end' := e\<rparr>) = Some (2, 2, 2)"
  "grid_size (example_args\<lparr>wall_str := n\<rparr>) = Some (2, 2, 2)"
  "grid_size sphere_args = Some (2, 2, 2)"
  unfolding example_grid [symmetric] sphere_args_def
  by (rule grid_size_cong; simp)+

lemma example_container:
  "built_container example_args (2, 2, 2) =
     (\<lparr>box = (0, 1, 0, 1, 0, 1), blocks = (2, 2, 2), periodic = (False, False, False),
       init_mem = 8,
       particles = [(0, 0, 1 / 16, 1 / 8), (1, 3 / 16, 1 / 4, 5 / 16), (2, 3 / 8, 7 / 16, 1 / 2),
                    (3, 9 / 16, 5 / 8, 11 / 16), (4, 3 / 4, 13 / 16, 7 / 8)],
       walls = []\<rparr>,
      [(0, 0, 1 / 16, 1 / 8), (1, 3 / 16, 1 / 4, 5 / 16)])"
  by (simp add: built_container_eq new_container_def example_args_def site_def upt_rec)

lemma example_bb:
  "bounding_box [0, 0, 0, 1, 2, 3] = Some ([0, 0, 0], [1, 2, 3])"
  "bounding_box [0, 0, 0, 1, 1, 1, - 1, 5, 1 / 2] = Some ([- 1, 0, 0], [1, 5, 1])"
  "bounding_box [] = None"
  by (simp_all add: bounding_box_def bb_loops_def bb_step_def upt_rec)

lemma example_call:
  "hyperion_voropp_wrap example_engine example_statics example_args =
     Returns None example_outputs example_statics"
proof -
  have bb1: "bounding_box [0, 0, 0, 1, 2, 3] = Some ([0, 0, 0], [1, 2, 3])"
    by (simp add: bounding_box_def bb_loops_def bb_step_def upt_rec)
  have bb2: "bounding_box [0, 0, 0, 1, 1, 1, - 1, 5, 1 / 2] = Some ([- 1, 0, 0], [1, 5, 1])"
    by (simp add: bounding_box_def bb_loops_def bb_step_def upt_rec)
  have upt: "[0..<3] = [0, 1, 2]"
    by (simp add: upt_rec)
  have loop: "cell_loop example_engine
       \<lparr>box = (0, 1, 0, 1, 0, 1), blocks = (2, 2, 2), periodic = (False, False, False),
        init_mem = 8,
        particles = [(0, 0, 1 / 16, 1 / 8), (1, 3 / 16, 1 / 4, 5 / 16), (2, 3 / 8, 7 / 16, 1 / 2),
                    (3, 9 / 16, 5 / 8, 11 / 16), (4, 3 / 4, 13 / 16, 7 / 8)],
        walls = []\<rparr> example_args
       [(0, 0, 1 / 16, 1 / 8), (1, 3 / 16, 1 / 4, 5 / 16)] (init_buffers 2 1) =
     Some \<lparr>n_list = [[1, - 1, - 3], [0, - 2]],
           vertices_list = [[0, 0, 0, 1, 2, 3], [0, 0, 0, 1, 1, 1, - 1, 5, 1 / 2]],
           vols = [Some (1 / 2), Some (1 / 2)],
           bb_m = [Some 0, Some 0, Some 0, Some (- 1), Some 0, Some 0],
           bb_M = [Some 1, Some 2, Some 3, Some 1, Some 5, Some 1]\<rparr>"
    by (simp add: cell_step_def example_engine_def init_buffers_def bb1 bb2 copy3_def upt
          numeral_2_eq_2 numeral_3_eq_3 example_args_def)
  have walls: "add_walls con None [] (\<lambda>i. 0) 0 = (Normal con, None)" for con
    by (simp add: add_walls_def add_sphere_def add_cylinder_def)
  have pk: "pack_outputs example_args
       \<lparr>n_list = [[1, - 1, - 3], [0, - 2]],
        vertices_list = [[0, 0, 0, 1, 2, 3], [0, 0, 0, 1, 1, 1, - 1, 5, 1 / 2]],
        vols = [Some (1 / 2), Some (1 / 2)],
        bb_m = [Some 0, Some 0, Some 0, Some (- 1), Some 0, Some 0],
        bb_M = [Some 1, Some 2, Some 3, Some 1, Some 5, Some 1]\<rparr> = Some example_outputs"
    by (simp add: pack_outputs_def example_args_def example_outputs_def unassigned_def
          numeral_3_eq_3)
  have body: "wrap_body example_engine None example_args = (Normal (), example_outputs, None)"
    unfolding wrap_body_def example_grid option.case
    using example_container loop pk walls
    by (simp add: example_args_def)
  show ?thesis
    by (simp add: hyperion_voropp_wrap_def example_statics_def body)
qed

lemma sphere_call:
  "hyperion_voropp_wrap example_engine example_statics sphere_args =
     Returns None (example_outputs\<lparr>volumes := Some [Some (1 / 4), Some (1 / 4)]\<rparr>)
       \<lparr>error_message = [], wall_ptr = Some (wall_sphere 0 0 0 1)\<rparr>"
proof -
  have upt: "[0..<3] = [0, 1, 2]"
    by (simp add: upt_rec)
  have bc: "built_container sphere_args (2, 2, 2) = built_container example_args (2, 2, 2)"
    by (simp add: built_container_eq sphere_args_def site_def)
  let ?con = "(fst (built_container example_args (2, 2, 2)))\<lparr>walls := [wall_sphere 0 0 0 1]\<rparr>"
  have walls: "add_walls (fst (built_container sphere_args (2, 2, 2))) (wall_ptr example_statics)
      (wall_str sphere_args) (wall_args_arr sphere_args) (n_wall_args sphere_args) =
      (Normal ?con, Some (wall_sphere 0 0 0 1))"
    unfolding bc by (simp add: add_walls_sphere sphere_args_def built_container_walls)
  have loop: "cell_loop example_engine ?con sphere_args
      (snd (built_container sphere_args (2, 2, 2)))
      (init_buffers (nat (end' sphere_args - start sphere_args)) (with_vertices sphere_args)) =
     Some \<lparr>n_list = [[1, - 1, - 3], [0, - 2]],
           vertices_list = [[0, 0, 0, 1, 2, 3], [0, 0, 0, 1, 1, 1, - 1, 5, 1 / 2]],
           vols = [Some (1 / 4), Some (1 / 4)],
           bb_m = [Some 0, Some 0, Some 0, Some (- 1), Some 0, Some 0],
           bb_M = [Some 1, Some 2, Some 3, Some 1, Some 5, Some 1]\<rparr>"
    unfolding bc example_container
    by (simp add: cell_step_def example_engine_def init_buffers_def example_bb
          copy3_def upt numeral_2_eq_2 numeral_3_eq_3 example_args_def sphere_args_def)
  have pk: "pack_outputs sphere_args
       \<lparr>n_list = [[1, - 1, - 3], [0, - 2]],
        vertices_list = [[0, 0, 0, 1, 2, 3], [0, 0, 0, 1, 1, 1, - 1, 5, 1 / 2]],
        vols = [Some (1 / 4), Some (1 / 4)],
        bb_m = [Some 0, Some 0, Some 0, Some (- 1), Some 0, Some 0],
        bb_M = [Some 1, Some 2, Some 3, Some 1, Some 5, Some 1]\<rparr> =
       Some (example_outputs\<lparr>volumes := Some [Some (1 / 4), Some (1 / 4)]\<rparr>)"
    by (simp add: pack_outputs_def example_args_def sphere_args_def example_outputs_def
          unassigned_def numeral_3_eq_3)
  have "hyperion_voropp_wrap example_engine example_statics sphere_args =
     Returns None (example_outputs\<lparr>volumes := Some [Some (1 / 4), Some (1 / 4)]\<rparr>)
       (example_statics\<lparr>wall_ptr := Some (wall_sphere 0 0 0 1)\<rparr>)"
    by (rule wrap_returns [OF example_grids(4) _ walls loop pk])
       (simp add: example_args_def sphere_args_def)
  then show ?thesis
    by (simp add: example_statics_def)
qed

lemma shifted_call:
  "hyperion_voropp_wrap example_engine example_statics (example_args\<lparr>start := - 1, end' := 1\<rparr>) =
     Returns None
       \<lparr>neighbours = Some [- 10, - 10, - 10, 1, - 1, - 3],
        max_nn = Some 3,
        volumes = Some [None, Some (1 / 2)],
        bb_min = Some [None, None, None, Some 0, Some 0, Some 0],
        bb_max = Some [None, None, None, Some 1, Some 2, Some 3],
        vertices = Some [NaN, NaN, NaN, NaN, NaN, NaN,
                         Finite 0, Finite 0, Finite 0, Finite 1, Finite 2, Finite 3],
        max_nv = Some 6\<rparr>
       example_statics"
proof -
  let ?a = "example_args\<lparr>start := - 1, end' := 1\<rparr>"
  have upt: "[0..<3] = [0, 1, 2]"
    by (simp add: upt_rec)
  have sel: "snd (built_container ?a (2, 2, 2)) = [(0, 0, 1 / 16, 1 / 8)]"
    by (simp add: built_container_snd example_args_def site_def)
  have walls: "add_walls (fst (built_container ?a (2, 2, 2))) (wall_ptr example_statics)
      (wall_str ?a) (wall_args_arr ?a) (n_wall_args ?a) =
      (Normal (fst (built_container ?a (2, 2, 2))), wall_ptr example_statics)"
    by (simp add: add_walls_other example_args_def)
  have loop: "cell_loop example_engine (fst (built_container ?a (2, 2, 2))) ?a
      (snd (built_container ?a (2, 2, 2)))
      (init_buffers (nat (end' ?a - start ?a)) (with_vertices ?a)) =
     Some \<lparr>n_list = [[], [1, - 1, - 3]],
           vertices_list = [[], [0, 0, 0, 1, 2, 3]],
           vols = [None, Some (1 / 2)],
           bb_m = [None, None, None, Some 0, Some 0, Some 0],
           bb_M = [None, None, None, Some 1, Some 2, Some 3]\<rparr>"
    unfolding sel
    by (simp add: cell_step_def example_engine_def init_buffers_def example_bb
          copy3_def upt numeral_2_eq_2 numeral_3_eq_3 example_args_def built_container_walls)
  have pk: "pack_outputs ?a
       \<lparr>n_list = [[], [1, - 1, - 3]],
        vertices_list = [[], [0, 0, 0, 1, 2, 3]],
        vols = [None, Some (1 / 2)],
        bb_m = [None, None, None, Some 0, Some 0, Some 0],
        bb_M = [None, None, None, Some 1, Some 2, Some 3]\<rparr> =
       Some \<lparr>neighbours = Some [- 10, - 10, - 10, 1, - 1, - 3],
        max_nn = Some 3,
        volumes = Some [None, Some (1 / 2)],
        bb_min = Some [None, None, None, Some 0, Some 0, Some 0],
        bb_max = Some [None, None, None, Some 1, Some 2, Some 3],
        vertices = Some [NaN, NaN, NaN, NaN, NaN, NaN,
                         Finite 0, Finite 0, Finite 0, Finite 1, Finite 2, Finite 3],
        max_nv = Some 6\<rparr>"
    by (simp add: pack_outputs_def example_args_def unassigned_def numeral_3_eq_3
          eval_nat_numeral)
  have "hyperion_voropp_wrap example_engine example_statics ?a =
     Returns None
       \<lparr>neighbours = Some [- 10, - 10, - 10, 1, - 1, - 3],
        max_nn = Some 3,
        volumes = Some [None, Some (1 / 2)],
        bb_min = Some [None, None, None, Some 0, Some 0, Some 0],
        bb_max = Some [None, None, None, Some 1, Some 2, Some 3],
        vertices = Some [NaN, NaN, NaN, NaN, NaN, NaN,
                         Finite 0, Finite 0, Finite 0, Finite 1, Finite 2, Finite 3],
        max_nv = Some 6\<rparr>
       (example_statics\<lparr>wall_ptr := wall_ptr example_statics\<rparr>)"
    by (rule wrap_returns [OF example_grids(1) _ walls loop pk]) (simp add: example_args_def)
  then show ?thesis
    by simp
qed

lemma plain_call:
  "hyperion_voropp_wrap example_engine example_statics (example_args\<lparr>with_vertices := 0\<rparr>) =
     Returns None (example_outputs\<lparr>vertices := None, max_nv := Some 0\<rparr>) example_statics"
proof -
  let ?a = "example_args\<lparr>with_vertices := 0\<rparr>"
  have upt: "[0..<3] = [0, 1, 2]"
    by (simp add: upt_rec)
  have grid: "grid_size ?a = Some (2, 2, 2)"
    unfolding example_grid [symmetric] by (rule grid_size_cong; simp)
  have bc: "built_container ?a (2, 2, 2) = built_container example_args (2, 2, 2)"
    by (simp add: built_container_eq example_args_def site_def)
  have walls: "add_walls (fst (built_container ?a (2, 2, 2))) (wall_ptr example_statics)
      (wall_str ?a) (wall_args_arr ?a) (n_wall_args ?a) =
      (Normal (fst (built_container example_args (2, 2, 2))), wall_ptr example_statics)"
    unfolding bc by (simp add: add_walls_other example_args_def)
  have loop: "cell_loop example_engine (fst (built_container example_args (2, 2, 2))) ?a
      (snd (built_container ?a (2, 2, 2)))
      (init_buffers (nat (end' ?a - start ?a)) (with_vertices ?a)) =
     Some \<lparr>n_list = [[1, - 1, - 3], [0, - 2]],
           vertices_list = [],
           vols = [Some (1 / 2), Some (1 / 2)],
           bb_m = [Some 0, Some 0, Some 0, Some (- 1), Some 0, Some 0],
           bb_M = [Some 1, Some 2, Some 3, Some 1, Some 5, Some 1]\<rparr>"
    unfolding bc example_container
    by (simp add: cell_step_def example_engine_def init_buffers_def example_bb
          copy3_def upt numeral_2_eq_2 numeral_3_eq_3 example_args_def)
  have pk: "pack_outputs ?a
       \<lparr>n_list = [[1, - 1, - 3], [0, - 2]],
        vertices_list = [],
        vols = [Some (1 / 2), Some (1 / 2)],
        bb_m = [Some 0, Some 0, Some 0, Some (- 1), Some 0, Some 0],
        bb_M = [Some 1, Some 2, Some 3, Some 1, Some 5, Some 1]\<rparr> =
       Some (example_outputs\<lparr>vertices := None, max_nv := Some 0\<rparr>)"
    by (simp add: pack_outputs_def example_args_def example_outputs_def unassigned_def
          numeral_3_eq_3)
  have "hyperion_voropp_wrap example_engine example_statics ?a =
     Returns None (example_outputs\<lparr>vertices := None, max_nv := Some 0\<rparr>)
       (example_statics\<lparr>wall_ptr := wall_ptr example_statics\<rparr>)"
    by (rule wrap_returns [OF grid _ walls loop pk]) (simp add: example_args_def)
  then show ?thesis
    by simp
qed

section \<open>Grid sizing: claims\<close>






section \<open>Walls: claims\<close>

text \<open>
  Claim C3. \<open>add_walls\<close> throws, and then an invalid-argument exception, exactly when the
  name is "sphere" and the count is not 4 or the fourth parameter is not positive, or the
  name is "cylinder" and the count is not 7 or the seventh parameter is not positive. For
  any other name the container and the static pointer are unchanged. On success the wall is
  appended to the walls of the container, and every cell of the call is computed on a
  container that holds it.
\<close>

theorem add_walls_validation:
  "((\<exists>m. fst (add_walls con wp name args n) = Throws (invalid_argument m)) \<longleftrightarrow>
      (name = ''sphere'' \<and> (n \<noteq> 4 \<or> args 3 \<le> 0)) \<or>
      (name = ''cylinder'' \<and> (n \<noteq> 7 \<or> args 6 \<le> 0))) \<and>
   fst (add_walls con wp name args n) \<noteq> Undefined \<and>
   (\<forall>m. fst (add_walls con wp name args n) \<noteq> Throws (length_error m)) \<and>
   (name \<noteq> ''sphere'' \<and> name \<noteq> ''cylinder'' \<longrightarrow>
      add_walls con wp name args n = (Normal con, wp)) \<and>
   (name = ''sphere'' \<and> n = 4 \<and> 0 < args 3 \<longrightarrow>
      add_walls con wp name args n =
        (Normal (con\<lparr>walls := walls con @ [wall_sphere (args 0) (args 1) (args 2) (args 3)]\<rparr>),
         Some (wall_sphere (args 0) (args 1) (args 2) (args 3)))) \<and>
   (name = ''cylinder'' \<and> n = 7 \<and> 0 < args 6 \<longrightarrow>
      add_walls con wp name args n =
        (Normal (con\<lparr>walls := walls con @
            [wall_cylinder (args 0) (args 1) (args 2) (args 3) (args 4) (args 5) (args 6)]\<rparr>),
         Some (wall_cylinder (args 0) (args 1) (args 2) (args 3) (args 4) (args 5) (args 6)))) \<and>
   (wall_str a = ''sphere'' \<and> n_wall_args a = 4 \<and> 0 < wall_args_arr a 3 \<longrightarrow>
      hyperion_voropp_wrap compute_cell s a =
      hyperion_voropp_wrap (\<lambda>c. compute_cell (c\<lparr>walls :=
         [wall_sphere (wall_args_arr a 0) (wall_args_arr a 1) (wall_args_arr a 2)
            (wall_args_arr a 3)]\<rparr>)) s a) \<and>
   (wall_str a = ''cylinder'' \<and> n_wall_args a = 7 \<and> 0 < wall_args_arr a 6 \<longrightarrow>
      hyperion_voropp_wrap compute_cell s a =
      hyperion_voropp_wrap (\<lambda>c. compute_cell (c\<lparr>walls :=
         [wall_cylinder (wall_args_arr a 0) (wall_args_arr a 1) (wall_args_arr a 2)
            (wall_args_arr a 3) (wall_args_arr a 4) (wall_args_arr a 5)
            (wall_args_arr a 6)]\<rparr>)) s a)"
proof -
  have sphere: "name = ''sphere'' \<and> n = 4 \<and> 0 < args 3 \<longrightarrow>
      add_walls con wp name args n =
        (Normal (con\<lparr>walls := walls con @ [wall_sphere (args 0) (args 1) (args 2) (args 3)]\<rparr>),
         Some (wall_sphere (args 0) (args 1) (args 2) (args 3)))"
    using add_walls_sphere [of n args con wp] by simp
  have cylinder: "name = ''cylinder'' \<and> n = 7 \<and> 0 < args 6 \<longrightarrow>
      add_walls con wp name args n =
        (Normal (con\<lparr>walls := walls con @
            [wall_cylinder (args 0) (args 1) (args 2) (args 3) (args 4) (args 5) (args 6)]\<rparr>),
         Some (wall_cylinder (args 0) (args 1) (args 2) (args 3) (args 4) (args 5) (args 6)))"
    using add_walls_cylinder [of n args con wp] by simp
  have other: "name \<noteq> ''sphere'' \<and> name \<noteq> ''cylinder'' \<longrightarrow>
      add_walls con wp name args n = (Normal con, wp)"
    by (simp add: add_walls_other)
  have fails: "(\<exists>m. fst (add_walls con wp name args n) = Throws (invalid_argument m)) \<longleftrightarrow>
      (name = ''sphere'' \<and> (n \<noteq> 4 \<or> args 3 \<le> 0)) \<or>
      (name = ''cylinder'' \<and> (n \<noteq> 7 \<or> args 6 \<le> 0))"
    by (rule add_walls_throws_iff)
  have defined: "fst (add_walls con wp name args n) \<noteq> Undefined"
    and no_length_error: "\<forall>m. fst (add_walls con wp name args n) \<noteq> Throws (length_error m)"
    using add_walls_no_other_fault [of con wp name args n] by simp_all
  have wrap_sphere: "wall_str a = ''sphere'' \<and> n_wall_args a = 4 \<and> 0 < wall_args_arr a 3 \<longrightarrow>
      hyperion_voropp_wrap compute_cell s a =
      hyperion_voropp_wrap (\<lambda>c. compute_cell (c\<lparr>walls :=
         [wall_sphere (wall_args_arr a 0) (wall_args_arr a 1) (wall_args_arr a 2)
            (wall_args_arr a 3)]\<rparr>)) s a"
    using wrap_sphere_attached [of a compute_cell s] by simp
  have wrap_cylinder: "wall_str a = ''cylinder'' \<and> n_wall_args a = 7 \<and> 0 < wall_args_arr a 6 \<longrightarrow>
      hyperion_voropp_wrap compute_cell s a =
      hyperion_voropp_wrap (\<lambda>c. compute_cell (c\<lparr>walls :=
         [wall_cylinder (wall_args_arr a 0) (wall_args_arr a 1) (wall_args_arr a 2)
            (wall_args_arr a 3) (wall_args_arr a 4) (wall_args_arr a 5)
            (wall_args_arr a 6)]\<rparr>)) s a"
    using wrap_cylinder_attached [of a compute_cell s] by simp
  from fails defined no_length_error other sphere cylinder wrap_sphere wrap_cylinder
  show ?thesis
    by (intro conjI)
qed

theorem add_walls_validation_witness:
  "add_walls (new_container 0 1 0 1 0 1 2 2 2 False False False 8) None ''sphere''
       (\<lambda>i. if i = 3 then 1 else 0) 4 =
     (Normal ((new_container 0 1 0 1 0 1 2 2 2 False False False 8)\<lparr>walls := [wall_sphere 0 0 0 1]\<rparr>),
      Some (wall_sphere 0 0 0 1)) \<and>
   (\<exists>m. fst (add_walls (new_container 0 1 0 1 0 1 2 2 2 False False False 8) None ''sphere''
       (\<lambda>i. if i = 3 then - 1 else 0) 4) = Throws (invalid_argument m)) \<and>
   (\<exists>m. fst (add_walls (new_container 0 1 0 1 0 1 2 2 2 False False False 8) None ''sphere''
       (\<lambda>i. if 3 \<le> i then 1 else 0) 5) = Throws (invalid_argument m)) \<and>
   add_walls (new_container 0 1 0 1 0 1 2 2 2 False False False 8) None ''cylinder''
       (\<lambda>i. if i = 6 then 2 else 0) 7 =
     (Normal ((new_container 0 1 0 1 0 1 2 2 2 False False False 8)\<lparr>walls := [wall_cylinder 0 0 0 0 0 0 2]\<rparr>),
      Some (wall_cylinder 0 0 0 0 0 0 2)) \<and>
   add_walls (new_container 0 1 0 1 0 1 2 2 2 False False False 8) None ''cone''
       (\<lambda>i. 1) 3 =
     (Normal (new_container 0 1 0 1 0 1 2 2 2 False False False 8), None) \<and>
   hyperion_voropp_wrap
     (\<lambda>c p. \<lparr>cell_neighbors = [], cell_volume = real (length (walls c)), cell_vertices = [0, 0, 0]\<rparr>)
     \<lparr>error_message = [], wall_ptr = None\<rparr>
     \<lparr>start = 0, end' = 1, xmin = 0, xmax = 1, ymin = 0, ymax = 1, zmin = 0, zmax = 1,
       points = (\<lambda>i. 0), nsites = 5, with_vertices = 1, wall_str = ''sphere'',
       wall_args_arr = (\<lambda>i. if i = 3 then 1 else 0), n_wall_args = 4, verbose = 0\<rparr> =
   hyperion_voropp_wrap
     (\<lambda>c p. \<lparr>cell_neighbors = [], cell_volume = 1, cell_vertices = [0, 0, 0]\<rparr>)
     \<lparr>error_message = [], wall_ptr = None\<rparr>
     \<lparr>start = 0, end' = 1, xmin = 0, xmax = 1, ymin = 0, ymax = 1, zmin = 0, zmax = 1,
       points = (\<lambda>i. 0), nsites = 5, with_vertices = 1, wall_str = ''sphere'',
       wall_args_arr = (\<lambda>i. if i = 3 then 1 else 0), n_wall_args = 4, verbose = 0\<rparr>"
proof -
  let ?con = "new_container 0 1 0 1 0 1 2 2 2 False False False 8"
  let ?cc = "\<lambda>c p. \<lparr>cell_neighbors = [], cell_volume = real (length (walls c)), cell_vertices = [0, 0, 0]\<rparr>"
  let ?s = "\<lparr>error_message = [], wall_ptr = None\<rparr>"
  let ?a = "\<lparr>start = 0, end' = 1, xmin = 0, xmax = 1, ymin = 0, ymax = 1, zmin = 0, zmax = 1,
       points = (\<lambda>i. 0), nsites = 5, with_vertices = 1, wall_str = ''sphere'',
       wall_args_arr = (\<lambda>i. if i = 3 then 1 else 0), n_wall_args = 4, verbose = 0\<rparr>"
  let ?b = "?a\<lparr>wall_str := []\<rparr>"
  have sphere: "add_walls ?con None ''sphere'' (\<lambda>i. if i = 3 then 1 else 0) 4 =
     (Normal (?con\<lparr>walls := [wall_sphere 0 0 0 1]\<rparr>), Some (wall_sphere 0 0 0 1))"
    using add_walls_validation [of ?con None "''sphere''" "\<lambda>i. if i = 3 then 1 else 0" 4 ?b ?cc ?s]
    by (simp add: new_container_def)
  have radius: "\<exists>m. fst (add_walls ?con None ''sphere'' (\<lambda>i. if i = 3 then - 1 else 0) 4) =
     Throws (invalid_argument m)"
    using add_walls_validation [of ?con None "''sphere''" "\<lambda>i. if i = 3 then - 1 else 0" 4 ?b ?cc ?s]
    by simp
  have count: "\<exists>m. fst (add_walls ?con None ''sphere'' (\<lambda>i. if 3 \<le> i then 1 else 0) 5) =
     Throws (invalid_argument m)"
    using add_walls_validation [of ?con None "''sphere''" "\<lambda>i. if 3 \<le> i then 1 else 0" 5 ?b ?cc ?s]
    by simp
  have cylinder: "add_walls ?con None ''cylinder'' (\<lambda>i. if i = 6 then 2 else 0) 7 =
     (Normal (?con\<lparr>walls := [wall_cylinder 0 0 0 0 0 0 2]\<rparr>), Some (wall_cylinder 0 0 0 0 0 0 2))"
    using add_walls_validation [of ?con None "''cylinder''" "\<lambda>i. if i = 6 then 2 else 0" 7 ?b ?cc ?s]
    by (simp add: new_container_def)
  have cone: "add_walls ?con None ''cone'' (\<lambda>i. 1) 3 = (Normal ?con, None)"
    using add_walls_validation [of ?con None "''cone''" "\<lambda>i. 1" 3 ?b ?cc ?s]
    by simp
  have attached: "hyperion_voropp_wrap ?cc ?s ?a =
     hyperion_voropp_wrap (\<lambda>c p. \<lparr>cell_neighbors = [], cell_volume = 1, cell_vertices = [0, 0, 0]\<rparr>) ?s ?a"
    using add_walls_validation [of ?con None "''cone''" "\<lambda>i. 1" 3 ?a ?cc ?s]
    by simp
  from sphere radius count cylinder cone attached show ?thesis
    by (intro conjI)
qed

section \<open>Population and the loop: claims\<close>



section \<open>Packing: claims\<close>

text \<open>
  Claim C4. After a call that returns \<^verbatim>\<open>NULL\<close>, on a range within the particles: the
  neighbour buffer has \<open>ncells\<close> rows of width \<open>max_nn\<close>, the largest number of neighbours of
  a computed cell; row \<open>k\<close> starts with the neighbours of cell \<open>k\<close> in the order of the
  engine and continues with -10, which is neither an index of a particle (at least 0 and
  below \<open>nsites\<close>) nor an id of a boundary face; with vertices requested the vertex buffer
  has \<open>ncells\<close> rows of width \<open>max_nv\<close>, the largest number of vertex coordinates, padded
  with not-a-number; without, \<open>max_nv\<close> is 0 and no vertex buffer is assigned.
\<close>

theorem packed_channels:
  assumes call: "hyperion_voropp_wrap cc s a = Returns None out s'"
    and range: "0 \<le> start a" "end' a \<le> nsites a"
  shows "\<exists>con mnn neighs.
      cell_container a = Some con \<and>
      max_nn out = Some (int mnn) \<and> neighbours out = Some neighs \<and>
      mnn = Max (set (map (\<lambda>p. length (cell_neighbors (cc con p))) (selected a))) \<and>
      length neighs = nat (end' a - start a) * mnn \<and>
      (\<forall>k<nat (end' a - start a). \<forall>j<mnn.
         neighs ! (k * mnn + j) =
           (if j < length (cell_neighbors (cc con (selected a ! k)))
            then cell_neighbors (cc con (selected a ! k)) ! j else - 10)) \<and>
      \<not> (0 \<le> (- 10 :: int) \<and> - 10 < nsites a) \<and> \<not> is_boundary_face_id (- 10) \<and>
      (with_vertices a = 0 \<longrightarrow> max_nv out = Some 0 \<and> vertices out = None) \<and>
      (with_vertices a \<noteq> 0 \<longrightarrow>
         (\<exists>mnv verts.
            max_nv out = Some (int mnv) \<and> vertices out = Some verts \<and>
            mnv = Max (set (map (\<lambda>p. length (cell_vertices (cc con p))) (selected a))) \<and>
            length verts = nat (end' a - start a) * mnv \<and>
            (\<forall>k<nat (end' a - start a). \<forall>j<mnv.
               verts ! (k * mnv + j) =
                 (if j < length (cell_vertices (cc con (selected a ! k)))
                  then Finite (cell_vertices (cc con (selected a ! k)) ! j) else NaN))))"
proof -
  obtain con where cont: "cell_container a = Some con" and lt: "start a < end' a"
    and pk: "pack_outputs a (cell_results cc con (with_vertices a) (selected a)) = Some out"
    using wrap_success_inv [OF call range] by blast
  have len: "length (selected a) = nat (end' a - start a)"
    using range(1) lt by (simp add: selected_length)
  have ne: "selected a \<noteq> []"
    using len lt by auto
  let ?rows = "map (\<lambda>p. cell_neighbors (cc con p)) (selected a)"
  let ?vrows = "map (\<lambda>p. cell_vertices (cc con p)) (selected a)"
  let ?mnn = "Max (set (map length ?rows))"
  let ?mnv = "Max (set (map length (map (map Finite) ?vrows)))"
  have out: "out =
           \<lparr>neighbours = Some (pack (- 10) ?mnn ?rows),
            max_nn = Some (int ?mnn),
            volumes = Some (vols (cell_results cc con (with_vertices a) (selected a))),
            bb_min = Some (bb_m (cell_results cc con (with_vertices a) (selected a))),
            bb_max = Some (bb_M (cell_results cc con (with_vertices a) (selected a))),
            vertices = (if with_vertices a \<noteq> 0 then Some (pack NaN ?mnv (map (map Finite) ?vrows)) else None),
            max_nv = Some (if with_vertices a \<noteq> 0 then int ?mnv else 0)\<rparr>"
    using pk pack_outputs_defined [of "cell_results cc con (with_vertices a) (selected a)" a] ne
    by (simp add: cell_results_def o_def del: set_map)
  have mnn: "?mnn = Max (set (map (\<lambda>p. length (cell_neighbors (cc con p))) (selected a)))"
    by (simp add: o_def del: set_map)
  have mnv: "?mnv = Max (set (map (\<lambda>p. length (cell_vertices (cc con p))) (selected a)))"
    by (simp add: o_def del: set_map)
  have rows_ne: "?rows \<noteq> []" "map (map Finite) ?vrows \<noteq> []"
    using ne by simp_all
  note pn = packed_rows [OF rows_ne(1), of "- 10"]
  note pv = packed_rows [OF rows_ne(2), of NaN]
  have n1: "length (pack (- 10) ?mnn ?rows) = nat (end' a - start a) * ?mnn"
    using pn len by simp
  have n2: "\<forall>k<nat (end' a - start a). \<forall>j<?mnn.
         pack (- 10) ?mnn ?rows ! (k * ?mnn + j) =
           (if j < length (cell_neighbors (cc con (selected a ! k)))
            then cell_neighbors (cc con (selected a ! k)) ! j else - 10)"
    using pn len by simp
  have v1: "length (pack NaN ?mnv (map (map Finite) ?vrows)) = nat (end' a - start a) * ?mnv"
    using pv len by simp
  have v2: "\<forall>k<nat (end' a - start a). \<forall>j<?mnv.
         pack NaN ?mnv (map (map Finite) ?vrows) ! (k * ?mnv + j) =
           (if j < length (cell_vertices (cc con (selected a ! k)))
            then Finite (cell_vertices (cc con (selected a ! k)) ! j) else NaN)"
    using pv len by simp
  have sentinel: "\<not> (0 \<le> (- 10 :: int) \<and> - 10 < nsites a)" "\<not> is_boundary_face_id (- 10)"
    by (simp_all add: is_boundary_face_id_def)
  have novert: "with_vertices a = 0 \<longrightarrow> max_nv out = Some 0 \<and> vertices out = None"
    by (simp add: out)
  have vert: "with_vertices a \<noteq> 0 \<longrightarrow>
         (\<exists>mnv verts.
            max_nv out = Some (int mnv) \<and> vertices out = Some verts \<and>
            mnv = Max (set (map (\<lambda>p. length (cell_vertices (cc con p))) (selected a))) \<and>
            length verts = nat (end' a - start a) * mnv \<and>
            (\<forall>k<nat (end' a - start a). \<forall>j<mnv.
               verts ! (k * mnv + j) =
                 (if j < length (cell_vertices (cc con (selected a ! k)))
                  then Finite (cell_vertices (cc con (selected a ! k)) ! j) else NaN)))"
  proof
    assume wv: "with_vertices a \<noteq> 0"
    have "max_nv out = Some (int ?mnv)" "vertices out = Some (pack NaN ?mnv (map (map Finite) ?vrows))"
      using wv by (simp_all add: out)
    then show "\<exists>mnv verts.
            max_nv out = Some (int mnv) \<and> vertices out = Some verts \<and>
            mnv = Max (set (map (\<lambda>p. length (cell_vertices (cc con p))) (selected a))) \<and>
            length verts = nat (end' a - start a) * mnv \<and>
            (\<forall>k<nat (end' a - start a). \<forall>j<mnv.
               verts ! (k * mnv + j) =
                 (if j < length (cell_vertices (cc con (selected a ! k)))
                  then Finite (cell_vertices (cc con (selected a ! k)) ! j) else NaN))"
      using mnv v1 v2 by blast
  qed
  have "max_nn out = Some (int ?mnn)" "neighbours out = Some (pack (- 10) ?mnn ?rows)"
    by (simp_all add: out)
  then show ?thesis
    using cont mnn n1 n2 sentinel novert vert by blast
qed

theorem packed_channels_witness:
  "(\<exists>con mnn neighs mnv verts.
      cell_container example_args = Some con \<and>
      max_nn example_outputs = Some (int mnn) \<and> neighbours example_outputs = Some neighs \<and>
      mnn = 3 \<and> length neighs = 2 * mnn \<and> neighs ! (1 * mnn + 1) = - 2 \<and>
      neighs ! (1 * mnn + 2) = - 10 \<and>
      max_nv example_outputs = Some (int mnv) \<and> vertices example_outputs = Some verts \<and>
      mnv = 9 \<and> length verts = 2 * mnv \<and> verts ! (0 * mnv + 5) = Finite 3 \<and>
      verts ! (0 * mnv + 6) = NaN) \<and>
   max_nv (example_outputs\<lparr>vertices := None, max_nv := Some 0\<rparr>) = Some 0 \<and>
   vertices (example_outputs\<lparr>vertices := None, max_nv := Some 0\<rparr>) = None"
proof -
  have range: "0 \<le> start example_args" "end' example_args \<le> nsites example_args"
    by (simp_all add: example_args_def)
  have range': "0 \<le> start (example_args\<lparr>with_vertices := 0\<rparr>)"
      "end' (example_args\<lparr>with_vertices := 0\<rparr>) \<le> nsites (example_args\<lparr>with_vertices := 0\<rparr>)"
    by (simp_all add: example_args_def)
  obtain con where "cell_container example_args = Some con"
    using packed_channels [OF example_call range] by blast
  then have requested: "\<exists>con mnn neighs mnv verts.
      cell_container example_args = Some con \<and>
      max_nn example_outputs = Some (int mnn) \<and> neighbours example_outputs = Some neighs \<and>
      mnn = 3 \<and> length neighs = 2 * mnn \<and> neighs ! (1 * mnn + 1) = - 2 \<and>
      neighs ! (1 * mnn + 2) = - 10 \<and>
      max_nv example_outputs = Some (int mnv) \<and> vertices example_outputs = Some verts \<and>
      mnv = 9 \<and> length verts = 2 * mnv \<and> verts ! (0 * mnv + 5) = Finite 3 \<and>
      verts ! (0 * mnv + 6) = NaN"
    by (simp add: example_outputs_def)
  have "with_vertices (example_args\<lparr>with_vertices := 0\<rparr>) = 0"
    by simp
  then have "max_nv (example_outputs\<lparr>vertices := None, max_nv := Some 0\<rparr>) = Some 0 \<and>
      vertices (example_outputs\<lparr>vertices := None, max_nv := Some 0\<rparr>) = None"
    using packed_channels [OF plain_call range'] by blast
  then show ?thesis
    using requested by (intro conjI) simp_all
qed

section \<open>Bounding boxes: claims\<close>

text \<open>
  Claim C5. After a call that returns \<^verbatim>\<open>NULL\<close>, on a range within the particles: for every
  computed cell the bounding box written to the output is the one the loops of the code
  compute, which is the fold of the componentwise minimum and maximum over the vertex
  triplets of the cell, started from the first triplet; on each axis the minimum is at most
  the maximum and every vertex coordinate of the cell on that axis lies between them.
\<close>

theorem bounding_boxes:
  assumes call: "hyperion_voropp_wrap cc s a = Returns None out s'"
    and range: "0 \<le> start a" "end' a \<le> nsites a"
  shows "\<exists>con mins maxs.
      cell_container a = Some con \<and> bb_min out = Some mins \<and> bb_max out = Some maxs \<and>
      length mins = nat (end' a - start a) * 3 \<and> length maxs = nat (end' a - start a) * 3 \<and>
      (\<forall>k<nat (end' a - start a). \<forall>j<3. \<exists>lo hi.
         bounding_box (cell_vertices (cc con (selected a ! k))) = Some (lo, hi) \<and>
         bb_spec (cell_vertices (cc con (selected a ! k))) = Some (lo, hi) \<and>
         mins ! (k * 3 + j) = Some (lo ! j) \<and> maxs ! (k * 3 + j) = Some (hi ! j) \<and>
         lo ! j \<le> hi ! j \<and>
         (\<forall>i<length (cell_vertices (cc con (selected a ! k))) div 3.
            lo ! j \<le> cell_vertices (cc con (selected a ! k)) ! (i * 3 + j) \<and>
            cell_vertices (cc con (selected a ! k)) ! (i * 3 + j) \<le> hi ! j))"
proof -
  obtain con where cont: "cell_container a = Some con" and lt: "start a < end' a"
    and vs: "\<forall>p\<in>set (selected a). 3 \<le> length (cell_vertices (cc con p))"
    and pk: "pack_outputs a (cell_results cc con (with_vertices a) (selected a)) = Some out"
    using wrap_success_inv [OF call range] by blast
  have len: "length (selected a) = nat (end' a - start a)"
    using range(1) lt by (simp add: selected_length)
  have ne: "selected a \<noteq> []"
    using len lt by auto
  let ?mins = "map (\<lambda>p. map Some (fst (bb_loops (cell_vertices (cc con p))))) (selected a)"
  let ?maxs = "map (\<lambda>p. map Some (snd (bb_loops (cell_vertices (cc con p))))) (selected a)"
  have out: "bb_min out = Some (concat ?mins)" "bb_max out = Some (concat ?maxs)"
    using pk pack_outputs_defined [of "cell_results cc con (with_vertices a) (selected a)" a] ne
    by (auto simp: cell_results_def)
  have l3: "\<forall>r\<in>set ?mins. length r = 3" "\<forall>r\<in>set ?maxs. length r = 3"
    using vs bb_loops_length by auto
  have lens: "length (concat ?mins) = nat (end' a - start a) * 3"
      "length (concat ?maxs) = nat (end' a - start a) * 3"
    using concat_rows_length [OF l3(1)] concat_rows_length [OF l3(2)] len by simp_all
  have cells: "\<exists>lo hi.
         bounding_box (cell_vertices (cc con (selected a ! k))) = Some (lo, hi) \<and>
         bb_spec (cell_vertices (cc con (selected a ! k))) = Some (lo, hi) \<and>
         concat ?mins ! (k * 3 + j) = Some (lo ! j) \<and> concat ?maxs ! (k * 3 + j) = Some (hi ! j) \<and>
         lo ! j \<le> hi ! j \<and>
         (\<forall>i<length (cell_vertices (cc con (selected a ! k))) div 3.
            lo ! j \<le> cell_vertices (cc con (selected a ! k)) ! (i * 3 + j) \<and>
            cell_vertices (cc con (selected a ! k)) ! (i * 3 + j) \<le> hi ! j)"
    if k: "k < nat (end' a - start a)" and j: "j < 3" for k j
  proof -
    let ?vs = "cell_vertices (cc con (selected a ! k))"
    have k': "k < length (selected a)"
      using k len by simp
    then have v3: "3 \<le> length ?vs"
      using vs by simp
    have spec: "bb_spec ?vs = Some (bb_loops ?vs)" "bounding_box ?vs = Some (bb_loops ?vs)"
      using v3 bounding_box_spec [of ?vs] by (simp_all add: bounding_box_def)
    have b: "fst (bb_loops ?vs) ! j \<le> snd (bb_loops ?vs) ! j \<and>
        (\<forall>i<length ?vs div 3. fst (bb_loops ?vs) ! j \<le> ?vs ! (i * 3 + j) \<and>
           ?vs ! (i * 3 + j) \<le> snd (bb_loops ?vs) ! j)"
      using bb_spec_bounds [of ?vs "fst (bb_loops ?vs)" "snd (bb_loops ?vs)" j] spec(1) j by simp
    have lb: "length (fst (bb_loops ?vs)) = 3" "length (snd (bb_loops ?vs)) = 3"
      using bb_loops_length [OF v3] by simp_all
    have "concat ?mins ! (k * 3 + j) = ?mins ! k ! j" "concat ?maxs ! (k * 3 + j) = ?maxs ! k ! j"
      using concat_rows_nth [OF l3(1) _ j, of k] concat_rows_nth [OF l3(2) _ j, of k] k' by simp_all
    then have "concat ?mins ! (k * 3 + j) = Some (fst (bb_loops ?vs) ! j)"
        "concat ?maxs ! (k * 3 + j) = Some (snd (bb_loops ?vs) ! j)"
      using k' j lb by simp_all
    then show ?thesis
      using spec b by (intro exI [of _ "fst (bb_loops ?vs)"] exI [of _ "snd (bb_loops ?vs)"]) simp
  qed
  show ?thesis
    using cont out lens cells by blast
qed

theorem bounding_boxes_witness:
  "\<exists>con mins maxs lo hi.
      cell_container example_args = Some con \<and>
      bb_min example_outputs = Some mins \<and> bb_max example_outputs = Some maxs \<and>
      length mins = 6 \<and> length maxs = 6 \<and>
      bb_spec (cell_vertices (example_engine con (selected example_args ! 1))) = Some (lo, hi) \<and>
      mins ! (1 * 3 + 1) = Some (lo ! 1) \<and> maxs ! (1 * 3 + 1) = Some (hi ! 1) \<and>
      lo ! 1 = 0 \<and> hi ! 1 = 5"
proof -
  have range: "0 \<le> start example_args" "end' example_args \<le> nsites example_args"
    by (simp_all add: example_args_def)
  have n: "nat (end' example_args - start example_args) = 2"
    by (simp add: example_args_def)
  obtain con mins maxs where cont: "cell_container example_args = Some con"
    and out: "bb_min example_outputs = Some mins" "bb_max example_outputs = Some maxs"
    and len: "length mins = 2 * 3" "length maxs = 2 * 3"
    and cells: "\<forall>k<2. \<forall>j<3. \<exists>lo hi.
         bounding_box (cell_vertices (example_engine con (selected example_args ! k))) = Some (lo, hi) \<and>
         bb_spec (cell_vertices (example_engine con (selected example_args ! k))) = Some (lo, hi) \<and>
         mins ! (k * 3 + j) = Some (lo ! j) \<and> maxs ! (k * 3 + j) = Some (hi ! j) \<and>
         lo ! j \<le> hi ! j \<and>
         (\<forall>i<length (cell_vertices (example_engine con (selected example_args ! k))) div 3.
            lo ! j \<le> cell_vertices (example_engine con (selected example_args ! k)) ! (i * 3 + j) \<and>
            cell_vertices (example_engine con (selected example_args ! k)) ! (i * 3 + j) \<le> hi ! j)"
    using bounding_boxes [OF example_call range] unfolding n by blast
  obtain lo hi where
    spec: "bb_spec (cell_vertices (example_engine con (selected example_args ! 1))) = Some (lo, hi)"
    and at: "mins ! (1 * 3 + 1) = Some (lo ! 1)" "maxs ! (1 * 3 + 1) = Some (hi ! 1)"
    using cells by (metis one_less_numeral_iff semiring_norm(76) semiring_norm(77))
  have "mins = [Some 0, Some 0, Some 0, Some (- 1), Some 0, Some 0]"
      "maxs = [Some 1, Some 2, Some 3, Some 1, Some 5, Some 1]"
    using out by (simp_all add: example_outputs_def)
  then have "mins ! (1 * 3 + 1) = Some 0" "maxs ! (1 * 3 + 1) = Some 5"
    by simp_all
  then have "lo ! 1 = 0" "hi ! 1 = 5"
    using at by simp_all
  then show ?thesis
    using cont out len spec at by simp
qed

section \<open>The call boundary: claims\<close>






section \<open>Static storage and determinism: claims\<close>

text \<open>
  Claim C9, as amended. A call reads nothing of what earlier calls left in static storage:
  what a later call returns and assigns is the same after any earlier call as without it.
  But the wall and the error text are written to static storage and stay there when the
  call has returned: after a call that returns, the static error text is the message of
  the call if it failed and is unchanged otherwise, and the static wall pointer holds the
  wall of the call if the call built one and is unchanged otherwise.
\<close>

theorem statics_frame:
  assumes "hyperion_voropp_wrap cc s a = Returns r out s1"
  shows "result_of (hyperion_voropp_wrap cc' s1 b) = result_of (hyperion_voropp_wrap cc' s b) \<and>
         error_message s1 = (case r of None \<Rightarrow> error_message s | Some m \<Rightarrow> m) \<and>
         wall_ptr s1 =
           (if start a \<le> end' a \<and> wall_str a = ''sphere'' \<and> n_wall_args a = 4 \<and>
               0 < wall_args_arr a 3
              then Some (wall_sphere (wall_args_arr a 0) (wall_args_arr a 1) (wall_args_arr a 2)
                           (wall_args_arr a 3))
            else if start a \<le> end' a \<and> wall_str a = ''cylinder'' \<and> n_wall_args a = 7 \<and>
                    0 < wall_args_arr a 6
              then Some (wall_cylinder (wall_args_arr a 0) (wall_args_arr a 1) (wall_args_arr a 2)
                           (wall_args_arr a 3) (wall_args_arr a 4) (wall_args_arr a 5)
                           (wall_args_arr a 6))
            else wall_ptr s)"
proof -
  obtain f out' wp where b: "wrap_body cc (wall_ptr s) a = (f, out', wp)"
    by (cases "wrap_body cc (wall_ptr s) a") auto
  have f: "f \<noteq> Undefined"
    using assms by (cases f) (simp_all add: hyperion_voropp_wrap_def b)
  have s1: "wall_ptr s1 = wp"
      "error_message s1 = (case r of None \<Rightarrow> error_message s | Some m \<Rightarrow> m)"
    using assms by (cases f; auto simp: hyperion_voropp_wrap_def b Let_def)+
  have "wp = snd (snd (wrap_body cc (wall_ptr s) a))"
    by (simp add: b)
  then show ?thesis
    using wrap_body_wall_ptr [of cc "wall_ptr s" a] f b s1
      wrap_result_independent [of cc' s1 b s]
    by simp
qed

theorem statics_frame_witness:
  "result_of (hyperion_voropp_wrap example_engine
       \<lparr>error_message = [], wall_ptr = Some (wall_sphere 0 0 0 1)\<rparr> example_args) =
     Some (None, example_outputs) \<and>
   error_message \<lparr>error_message = [], wall_ptr = Some (wall_sphere 0 0 0 1)\<rparr> =
     error_message example_statics \<and>
   wall_ptr \<lparr>error_message = [], wall_ptr = Some (wall_sphere 0 0 0 1)\<rparr> =
     Some (wall_sphere (wall_args_arr sphere_args 0) (wall_args_arr sphere_args 1)
             (wall_args_arr sphere_args 2) (wall_args_arr sphere_args 3))"
proof -
  note f = statics_frame [OF sphere_call, of example_engine example_args]
  have later: "result_of (hyperion_voropp_wrap example_engine
       \<lparr>error_message = [], wall_ptr = Some (wall_sphere 0 0 0 1)\<rparr> example_args) =
     result_of (hyperion_voropp_wrap example_engine example_statics example_args)"
    using f by (rule conjunct1)
  have msg: "error_message \<lparr>error_message = [], wall_ptr = Some (wall_sphere 0 0 0 1)\<rparr> =
     error_message example_statics"
    using f by simp
  have args: "wall_args_arr sphere_args 0 = 0" "wall_args_arr sphere_args 1 = 0"
      "wall_args_arr sphere_args 2 = 0" "wall_args_arr sphere_args 3 = 1"
    by (simp_all add: sphere_args_def)
  have wall: "wall_ptr \<lparr>error_message = [], wall_ptr = Some (wall_sphere 0 0 0 1)\<rparr> =
     Some (wall_sphere (wall_args_arr sphere_args 0) (wall_args_arr sphere_args 1)
             (wall_args_arr sphere_args 2) (wall_args_arr sphere_args 3))"
    unfolding args by simp
  have "result_of (hyperion_voropp_wrap example_engine example_statics example_args) =
     Some (None, example_outputs)"
    by (simp only: example_call result_of.simps)
  then show ?thesis
    using later msg wall by (simp only: simp_thms)
qed

text \<open>
  Counterexample to C9 as stated ("no data written by that call persists", "each call's
  wall state is call-scoped"): the example call with a sphere, started with an empty static
  wall pointer, returns with the sphere in the static wall pointer.
\<close>

theorem static_wall_counterexample:
  "hyperion_voropp_wrap example_engine \<lparr>error_message = [], wall_ptr = None\<rparr> sphere_args =
     Returns None (example_outputs\<lparr>volumes := Some [Some (1 / 4), Some (1 / 4)]\<rparr>)
       \<lparr>error_message = [], wall_ptr = Some (wall_sphere 0 0 0 1)\<rparr>"
  using sphere_call by (simp add: example_statics_def)

text \<open>
  Claim C10, as amended. For every input whose range lies within the particles
  (\<open>0 \<le> start\<close>, \<open>end \<le> nsites\<close>) and on which the call returns: a second call with the same
  arguments and the same engine, whatever the static storage holds by then, returns the
  same pointer and assigns the same output parameters, and every element of the volume
  and bounding-box buffers has been written by the call.
\<close>

theorem call_deterministic:
  assumes call: "hyperion_voropp_wrap cc s a = Returns r out s1"
    and range: "0 \<le> start a" "end' a \<le> nsites a"
  shows "(\<exists>s2. hyperion_voropp_wrap cc s' a = Returns r out s2) \<and>
         (\<forall>vs. volumes out = Some vs \<longrightarrow> None \<notin> set vs) \<and>
         (\<forall>vs. bb_min out = Some vs \<longrightarrow> None \<notin> set vs) \<and>
         (\<forall>vs. bb_max out = Some vs \<longrightarrow> None \<notin> set vs)"
proof -
  have "result_of (hyperion_voropp_wrap cc s' a) = Some (r, out)"
    using wrap_result_independent [of cc s' a s] call by simp
  then have again: "\<exists>s2. hyperion_voropp_wrap cc s' a = Returns r out s2"
    by (cases "hyperion_voropp_wrap cc s' a") simp_all
  have written: "(\<forall>vs. volumes out = Some vs \<longrightarrow> None \<notin> set vs) \<and>
         (\<forall>vs. bb_min out = Some vs \<longrightarrow> None \<notin> set vs) \<and>
         (\<forall>vs. bb_max out = Some vs \<longrightarrow> None \<notin> set vs)"
  proof (cases r)
    case (Some m)
    then have "out = unassigned"
      using call wrap_failure_unassigned by simp
    then show ?thesis
      by (simp add: unassigned_def)
  next
    case None
    then obtain con where lt: "start a < end' a"
      and pk: "pack_outputs a (cell_results cc con (with_vertices a) (selected a)) = Some out"
      using wrap_success_inv [OF call [unfolded None] range] by blast
    have ne: "selected a \<noteq> []"
      using lt range(1) by (simp add: selected_def)
    have "volumes out = Some (map (\<lambda>p. Some (cell_volume (cc con p))) (selected a))"
        "bb_min out = Some (concat (map (\<lambda>p. map Some (fst (bb_loops (cell_vertices (cc con p))))) (selected a)))"
        "bb_max out = Some (concat (map (\<lambda>p. map Some (snd (bb_loops (cell_vertices (cc con p))))) (selected a)))"
      using pk pack_outputs_defined [of "cell_results cc con (with_vertices a) (selected a)" a] ne
      by (auto simp: cell_results_def)
    then show ?thesis
      by auto
  qed
  show ?thesis
    using again written by blast
qed

theorem call_deterministic_witness:
  "(\<exists>s2. hyperion_voropp_wrap example_engine
       \<lparr>error_message = [], wall_ptr = Some (wall_sphere 0 0 0 1)\<rparr> example_args =
       Returns None example_outputs s2) \<and>
   volumes example_outputs = Some [Some (1 / 2), Some (1 / 2)] \<and>
   None \<notin> set [Some (1 / 2), Some (1 / 2 :: real)]"
proof -
  have range: "0 \<le> start example_args" "end' example_args \<le> nsites example_args"
    by (simp_all add: example_args_def)
  note d = call_deterministic [OF example_call range,
      of "\<lparr>error_message = [], wall_ptr = Some (wall_sphere 0 0 0 1)\<rparr>"]
  have v: "volumes example_outputs = Some [Some (1 / 2), Some (1 / 2)]"
    by (simp add: example_outputs_def)
  then have "None \<notin> set [Some (1 / 2), Some (1 / 2 :: real)]"
    using d by blast
  then show ?thesis
    using d v by blast
qed

text \<open>
  Counterexample to C10 as stated ("for every input"): the example call with the range
  \<open>[-1, 1)\<close>. Two rows are allocated and only the row of particle 0, at local index 1, is
  written: row 0 of the volume and bounding-box buffers is memory of \<^verbatim>\<open>malloc\<close> that the call
  never wrote, so its content is not a function of the arguments.
\<close>

theorem unwritten_rows_counterexample:
  "hyperion_voropp_wrap example_engine example_statics (example_args\<lparr>start := - 1, end' := 1\<rparr>) =
     Returns None
       \<lparr>neighbours = Some [- 10, - 10, - 10, 1, - 1, - 3],
        max_nn = Some 3,
        volumes = Some [None, Some (1 / 2)],
        bb_min = Some [None, None, None, Some 0, Some 0, Some 0],
        bb_max = Some [None, None, None, Some 1, Some 2, Some 3],
        vertices = Some [NaN, NaN, NaN, NaN, NaN, NaN,
                         Finite 0, Finite 0, Finite 0, Finite 1, Finite 2, Finite 3],
        max_nv = Some 6\<rparr>
       example_statics"
  by (rule shifted_call)

end
